theory Spec2Isabelle
  imports Complex_Main "HOL-Library.Word" "HOL-Library.Log_Nat"
begin

unbundle bit_operations_syntax

section \<open>The bus and its trace\<close>

text \<open>
  The driver talks to the sensor through an \<open>I2CDevice\<close> of the bus-device library.
  That library is not part of the driver, so the device handle is a parameter: two
  functions on a device state \<open>'d\<close>, each of which may raise. Every call the driver
  makes on the handle is logged in a trace, whether the call raises or not:
  \<open>Enter\<close> and \<open>Exit\<close> are the two ends of a \<open>with self.i2c_device as i2c\<close>
  block, \<open>Write bs\<close> is \<open>i2c.write(bs)\<close>, \<open>ReadInto n\<close> is \<open>i2c.readinto(buf)\<close>
  on a buffer of \<open>n\<close> bytes, and \<open>Sleep\<close> is \<open>time.sleep(0.01)\<close>.
\<close>

type_synonym byte = "8 word"

datatype error =
    OSError
  | RuntimeError string
  | StructError
  | ValueError
  | IndexError
  | ZeroDivisionError
  | OverflowError

datatype event = Enter | Exit | Write "byte list" | ReadInto nat | Sleep

record 'd I2CDevice =
  i2c_write :: "byte list \<Rightarrow> 'd \<Rightarrow> (error + unit) \<times> 'd"
  i2c_readinto :: "nat \<Rightarrow> 'd \<Rightarrow> (error + byte list) \<times> 'd"

record 'd world =
  dev :: 'd
  trace :: "event list"

record 'd VL53L1X =
  i2c_device :: "'d I2CDevice"

definition log :: "event \<Rightarrow> 'd world \<Rightarrow> 'd world" where
  "log e w = w\<lparr>trace := trace w @ [e]\<rparr>"

text \<open>The events a call added to the trace.\<close>

definition emitted :: "'d world \<Rightarrow> 'd world \<Rightarrow> event list" where
  "emitted w w' = drop (length (trace w)) (trace w')"

text \<open>
  \<open>with self.i2c_device as i2c: body\<close>. Python runs \<open>__exit__\<close> on every way out
  of the body; the library's \<open>__exit__\<close> returns \<open>False\<close>, so an exception of the
  body goes on to the caller.
\<close>

definition with_device ::
  "('d world \<Rightarrow> (error + 'a) \<times> 'd world) \<Rightarrow> 'd world \<Rightarrow> (error + 'a) \<times> 'd world" where
  "with_device body w = (case body (log Enter w) of (r, w') \<Rightarrow> (r, log Exit w'))"

definition dev_write ::
  "'d I2CDevice \<Rightarrow> byte list \<Rightarrow> 'd world \<Rightarrow> (error + unit) \<times> 'd world" where
  "dev_write i2c bs w =
     (case i2c_write i2c bs (dev w) of
        (r, d') \<Rightarrow> (r, \<lparr>dev = d', trace = trace w @ [Write bs]\<rparr>))"

text \<open>
  \<open>i2c.readinto(data)\<close> fills the buffer in place: the buffer keeps the length it was
  allocated with (\<open>bytearray(length)\<close>, all zero), whatever the transport delivers.
\<close>

definition fill_buffer :: "nat \<Rightarrow> byte list \<Rightarrow> byte list" where
  "fill_buffer n bs = take n bs @ replicate (n - length bs) 0"

definition dev_readinto ::
  "'d I2CDevice \<Rightarrow> nat \<Rightarrow> 'd world \<Rightarrow> (error + byte list) \<times> 'd world" where
  "dev_readinto i2c n w =
     (case i2c_readinto i2c n (dev w) of
        (r, d') \<Rightarrow>
          ((case r of Inl e \<Rightarrow> Inl e | Inr bs \<Rightarrow> Inr (fill_buffer n bs)),
           \<lparr>dev = d', trace = trace w @ [ReadInto n]\<rparr>))"

section \<open>Python helpers\<close>

text \<open>\<open>struct.pack(">H", address)\<close>: two bytes, high byte first; raises out of range.\<close>

definition addr_bytes :: "int \<Rightarrow> byte list" where
  "addr_bytes address = [word_of_int (address div 256), word_of_int (address mod 256)]"

definition pack_H :: "int \<Rightarrow> error + byte list" where
  "pack_H address =
     (if 0 \<le> address \<and> address < 65536 then Inr (addr_bytes address) else Inl StructError)"

text \<open>\<open>struct.unpack(">H", buf)[0]\<close>: needs exactly two bytes.\<close>

definition unpack_H :: "byte list \<Rightarrow> error + int" where
  "unpack_H buf =
     (case buf of [hi, lo] \<Rightarrow> Inr (uint hi * 256 + uint lo) | _ \<Rightarrow> Inl StructError)"

text \<open>\<open>data[:n]\<close>: a negative bound counts from the end.\<close>

definition slice_to :: "byte list \<Rightarrow> int \<Rightarrow> byte list" where
  "slice_to data n =
     (if 0 \<le> n then take (nat n) data else take (nat (int (length data) + n)) data)"

text \<open>\<open>buf[i]\<close> on a bytes object: an integer in 0..255, or IndexError.\<close>

definition getitem :: "byte list \<Rightarrow> nat \<Rightarrow> error + int" where
  "getitem buf i = (if i < length buf then Inr (uint (buf ! i)) else Inl IndexError)"

section \<open>Python floats\<close>

text \<open>
  A Python float is an IEEE binary64 number (the C double of the reference
  implementation): a sign, a significand below \<open>2 ^ 53\<close> and an exponent, standing
  for the significand times 2 to the exponent. Infinities and NaN are left out: the
  division below does not produce them.
\<close>

record binary64 =
  negative :: bool
  significand :: int
  exponent :: int

definition float_value :: "binary64 \<Rightarrow> real" where
  "float_value x =
     (let m = real_of_int (significand x);
          v = (if 0 \<le> exponent x then m * 2 ^ nat (exponent x)
               else m / 2 ^ nat (- exponent x))
      in if negative x then - v else v)"

text \<open>The integer nearest to \<open>n / d\<close>, for \<open>d > 0\<close>; a tie goes to the even one.\<close>

definition round_half_even :: "int \<Rightarrow> int \<Rightarrow> int" where
  "round_half_even n d =
     (let m = n div d; r = n mod d
      in if d < 2 * r \<or> (2 * r = d \<and> odd m) then m + 1 else m)"

text \<open>Numerator and denominator of \<open>p / q * 2 ^ k\<close>, for an exponent of either sign.\<close>

definition scaled :: "int \<Rightarrow> int \<Rightarrow> int \<Rightarrow> int \<times> int" where
  "scaled p q k = (if 0 \<le> k then (p * 2 ^ nat k, q) else (p, q * 2 ^ nat (- k)))"

text \<open>
  The \<open>k\<close> for which \<open>p / q * 2 ^ k\<close> has 53 bits before the point; it stops at
  1074, where the subnormal numbers begin.
\<close>

definition exponent_shift :: "int \<Rightarrow> int \<Rightarrow> int" where
  "exponent_shift p q =
     (let k0 = 53 - (bitlen p - bitlen q);
          k = (case scaled p q k0 of (n, d) \<Rightarrow> if n div d < 2 ^ 53 then k0 else k0 - 1)
      in min k 1074)"

text \<open>
  \<open>a / b\<close> on Python integers (true division): the binary64 number nearest to the
  quotient, a tie going to the even significand; \<open>ZeroDivisionError\<close> for a zero
  divisor, \<open>OverflowError\<close> when the result is beyond the largest float.
\<close>

definition truediv :: "int \<Rightarrow> int \<Rightarrow> error + binary64" where
  "truediv a b =
     (if b = 0 then Inl ZeroDivisionError
      else if a = 0 then Inr \<lparr>negative = (b < 0), significand = 0, exponent = 0\<rparr>
      else
        (let k = exponent_shift \<bar>a\<bar> \<bar>b\<bar>;
             m = (case scaled \<bar>a\<bar> \<bar>b\<bar> k of (n, d) \<Rightarrow> round_half_even n d);
             neg = ((a < 0) \<noteq> (b < 0))
         in if m = 0 then Inr \<lparr>negative = neg, significand = 0, exponent = 0\<rparr>
            else if m = 2 ^ 53 then
              (if 971 < 1 - k then Inl OverflowError
               else Inr \<lparr>negative = neg, significand = 2 ^ 52, exponent = 1 - k\<rparr>)
            else if 971 < - k then Inl OverflowError
            else Inr \<lparr>negative = neg, significand = m, exponent = - k\<rparr>))"

section \<open>Register addresses\<close>

definition VL53L1X_VHV_CONFIG__TIMEOUT_MACROP_LOOP_BOUND :: int where
  "VL53L1X_VHV_CONFIG__TIMEOUT_MACROP_LOOP_BOUND = 0x0008"

definition GPIO_HV_MUX__CTRL :: int where
  "GPIO_HV_MUX__CTRL = 0x0030"

definition GPIO__TIO_HV_STATUS :: int where
  "GPIO__TIO_HV_STATUS = 0x0031"

definition SYSTEM__INTERRUPT_CLEAR :: int where
  "SYSTEM__INTERRUPT_CLEAR = 0x0086"

definition SYSTEM__MODE_START :: int where
  "SYSTEM__MODE_START = 0x0087"

definition VL53L1X_RESULT__FINAL_CROSSTALK_CORRECTED_RANGE_MM_SD0 :: int where
  "VL53L1X_RESULT__FINAL_CROSSTALK_CORRECTED_RANGE_MM_SD0 = 0x0096"

definition VL53L1X_IDENTIFICATION__MODEL_ID :: int where
  "VL53L1X_IDENTIFICATION__MODEL_ID = 0x010F"

section \<open>Register transaction primitives\<close>

definition write_registerN ::
  "'d VL53L1X \<Rightarrow> int \<Rightarrow> byte list \<Rightarrow> int option \<Rightarrow> 'd world \<Rightarrow> (error + unit) \<times> 'd world" where
  "write_registerN self address data len w =
     (let n = (case len of None \<Rightarrow> int (length data) | Some k \<Rightarrow> k) in
      with_device
        (\<lambda>w1. case pack_H address of
                 Inl e \<Rightarrow> (Inl e, w1)
               | Inr hdr \<Rightarrow> dev_write (i2c_device self) (hdr @ slice_to data n) w1)
        w)"

definition read_registerN ::
  "'d VL53L1X \<Rightarrow> int \<Rightarrow> int \<Rightarrow> 'd world \<Rightarrow> (error + byte list) \<times> 'd world" where
  "read_registerN self address len w =
     (if len < 0 then (Inl ValueError, w)
      else
        with_device
          (\<lambda>w1. case pack_H address of
                   Inl e \<Rightarrow> (Inl e, w1)
                 | Inr hdr \<Rightarrow>
                     (case dev_write (i2c_device self) hdr w1 of
                        (Inl e, w2) \<Rightarrow> (Inl e, w2)
                      | (Inr u, w2) \<Rightarrow> dev_readinto (i2c_device self) (nat len) w2))
          w)"

section \<open>The driver\<close>

text \<open>
  The block of constants of \<open>_sensor_init\<close>, in the order of the source: the first
  byte is for register 0x2D, the last for register 0x87.
\<close>

definition init_seq :: "byte list" where
  "init_seq =
     [0x00, 0x00, 0x00, 0x01, 0x02, 0x00, 0x02, 0x08,
      0x00, 0x08, 0x10, 0x01, 0x01, 0x00, 0x00, 0x00,
      0x00, 0xFF, 0x00, 0x0F, 0x00, 0x00, 0x00, 0x00,
      0x00, 0x20, 0x0B, 0x00, 0x00, 0x02, 0x0A, 0x21,
      0x00, 0x00, 0x05, 0x00, 0x00, 0x00, 0x00, 0xC8,
      0x00, 0x00, 0x38, 0xFF, 0x01, 0x00, 0x08, 0x00,
      0x00, 0x01, 0xCC, 0x0F, 0x01, 0xF1, 0x0D, 0x01,
      0x68, 0x00, 0x80, 0x08, 0xB8, 0x00, 0x00, 0x00,
      0x00, 0x0F, 0x89, 0x00, 0x00, 0x00, 0x00, 0x00,
      0x00, 0x00, 0x01, 0x0F, 0x0D, 0x0E, 0x0E, 0x00,
      0x00, 0x02, 0xC7, 0xFF, 0x9B, 0x00, 0x00, 0x00,
      0x01, 0x00, 0x00]"

definition start_ranging :: "'d VL53L1X \<Rightarrow> 'd world \<Rightarrow> (error + unit) \<times> 'd world" where
  "start_ranging self w = write_registerN self SYSTEM__MODE_START [0x40] None w"

definition stop_ranging :: "'d VL53L1X \<Rightarrow> 'd world \<Rightarrow> (error + unit) \<times> 'd world" where
  "stop_ranging self w = write_registerN self SYSTEM__MODE_START [0x00] None w"

definition clear_interrupt :: "'d VL53L1X \<Rightarrow> 'd world \<Rightarrow> (error + unit) \<times> 'd world" where
  "clear_interrupt self w = write_registerN self SYSTEM__INTERRUPT_CLEAR [0x01] None w"

text \<open>
  \<open>_interrupt_polarity\<close>: bit 4 of the byte at \<open>_GPIO_HV_MUX__CTRL\<close>, inverted.
\<close>

definition interrupt_polarity :: "'d VL53L1X \<Rightarrow> 'd world \<Rightarrow> (error + int) \<times> 'd world" where
  "interrupt_polarity self w =
     (case read_registerN self GPIO_HV_MUX__CTRL 1 w of
        (Inl e, w1) \<Rightarrow> (Inl e, w1)
      | (Inr buf, w1) \<Rightarrow>
          (case getitem buf 0 of
             Inl e \<Rightarrow> (Inl e, w1)
           | Inr b \<Rightarrow>
               (let int_pol = b AND 0x10;
                    int_pol = (drop_bit 4 int_pol) AND 0x01
                in (Inr (if int_pol \<noteq> 0 then 0 else 1), w1))))"

text \<open>
  \<open>data_ready\<close>: Python evaluates the left operand of \<open>==\<close> first, so the status
  register is read before \<open>_interrupt_polarity\<close> reads the polarity register; \<open>&\<close>
  binds tighter than \<open>==\<close>.
\<close>

definition data_ready :: "'d VL53L1X \<Rightarrow> 'd world \<Rightarrow> (error + bool) \<times> 'd world" where
  "data_ready self w =
     (case read_registerN self GPIO__TIO_HV_STATUS 1 w of
        (Inl e, w1) \<Rightarrow> (Inl e, w1)
      | (Inr buf, w1) \<Rightarrow>
          (case getitem buf 0 of
             Inl e \<Rightarrow> (Inl e, w1)
           | Inr b \<Rightarrow>
               (case interrupt_polarity self w1 of
                  (Inl e, w2) \<Rightarrow> (Inl e, w2)
                | (Inr pol, w2) \<Rightarrow> (Inr (b AND 0x01 = pol), w2))))"

definition model_info ::
  "'d VL53L1X \<Rightarrow> 'd world \<Rightarrow> (error + int \<times> int \<times> int) \<times> 'd world" where
  "model_info self w =
     (case read_registerN self VL53L1X_IDENTIFICATION__MODEL_ID 3 w of
        (Inl e, w1) \<Rightarrow> (Inl e, w1)
      | (Inr info, w1) \<Rightarrow>
          (case getitem info 0 of
             Inl e \<Rightarrow> (Inl e, w1)
           | Inr i0 \<Rightarrow>
               (case getitem info 1 of
                  Inl e \<Rightarrow> (Inl e, w1)
                | Inr i1 \<Rightarrow>
                    (case getitem info 2 of
                       Inl e \<Rightarrow> (Inl e, w1)
                     | Inr i2 \<Rightarrow> (Inr (i0, i1, i2), w1)))))"

text \<open>
  \<open>distance\<close>: \<open>dist / 10\<close> is Python's true division of two integers, whose
  result is a float.
\<close>

definition distance :: "'d VL53L1X \<Rightarrow> 'd world \<Rightarrow> (error + binary64) \<times> 'd world" where
  "distance self w =
     (case read_registerN self VL53L1X_RESULT__FINAL_CROSSTALK_CORRECTED_RANGE_MM_SD0 2 w of
        (Inl e, w1) \<Rightarrow> (Inl e, w1)
      | (Inr buf, w1) \<Rightarrow>
          (case unpack_H buf of
             Inl e \<Rightarrow> (Inl e, w1)
           | Inr dist_mm \<Rightarrow>
               (case truediv dist_mm 10 of
                  Inl e \<Rightarrow> (Inl e, w1)
                | Inr cm \<Rightarrow> (Inr cm, w1))))"

text \<open>
  \<open>while not self.data_ready: time.sleep(0.01)\<close>. The loop has no bound in the
  source. The model gives it fuel, the number of times \<open>data_ready\<close> may be
  evaluated: \<open>None\<close> says that the loop was still polling when the fuel ran out,
  \<open>Some (Inl e)\<close> that \<open>data_ready\<close> raised, \<open>Some (Inr ())\<close> that the loop ended.
\<close>

fun poll_ready ::
  "'d VL53L1X \<Rightarrow> nat \<Rightarrow> 'd world \<Rightarrow> (error + unit) option \<times> 'd world" where
  "poll_ready self 0 w = (None, w)"
| "poll_ready self (Suc fuel) w =
     (case data_ready self w of
        (Inl e, w1) \<Rightarrow> (Some (Inl e), w1)
      | (Inr True, w1) \<Rightarrow> (Some (Inr ()), w1)
      | (Inr False, w1) \<Rightarrow> poll_ready self fuel (log Sleep w1))"

text \<open>
  What the sensor does to the loop, whatever the loop is: \<open>polled self n w = Some w'\<close>
  says that, from \<open>w\<close> on, \<open>data_ready\<close> returns false \<open>n\<close> times, with the
  sleep of the loop after each, and then returns true, which leaves \<open>w'\<close>. It is
  \<open>None\<close> when the evaluations go another way or one of them raises.
\<close>

fun polled :: "'d VL53L1X \<Rightarrow> nat \<Rightarrow> 'd world \<Rightarrow> 'd world option" where
  "polled self 0 w =
     (case data_ready self w of
        (Inr True, w1) \<Rightarrow> Some w1
      | (other, w1) \<Rightarrow> None)"
| "polled self (Suc n) w =
     (case data_ready self w of
        (Inr False, w1) \<Rightarrow> polled self n (log Sleep w1)
      | (other, w1) \<Rightarrow> None)"

text \<open>One statement of \<open>_sensor_init\<close> after another; an exception ends the sequence.\<close>

definition and_then ::
  "(error + unit) option \<times> 'd world \<Rightarrow>
   ('d world \<Rightarrow> (error + unit) option \<times> 'd world) \<Rightarrow>
   (error + unit) option \<times> 'd world" where
  "and_then r k = (case r of (Some (Inr u), w) \<Rightarrow> k w | (other, w) \<Rightarrow> (other, w))"

definition returned ::
  "(error + unit) \<times> 'd world \<Rightarrow> (error + unit) option \<times> 'd world" where
  "returned r = (case r of (x, w) \<Rightarrow> (Some x, w))"

definition sensor_init ::
  "'d VL53L1X \<Rightarrow> nat \<Rightarrow> 'd world \<Rightarrow> (error + unit) option \<times> 'd world" where
  "sensor_init self fuel w =
     and_then (returned (write_registerN self 0x002D init_seq None w)) (\<lambda>w.
     and_then (returned (start_ranging self w)) (\<lambda>w.
     and_then (poll_ready self fuel w) (\<lambda>w.
     and_then (returned (clear_interrupt self w)) (\<lambda>w.
     and_then (returned (stop_ranging self w)) (\<lambda>w.
     and_then (returned (write_registerN self VL53L1X_VHV_CONFIG__TIMEOUT_MACROP_LOOP_BOUND
                           [0x09] None w)) (\<lambda>w.
     returned (write_registerN self 0x0B [0x00] None w)))))))"

text \<open>
  \<open>__init__\<close>, from the point where the \<open>I2CDevice\<close> has been made: making it
  (and probing the bus address) is the library's work, and the handle is the parameter
  \<open>i2c\<close>. The fuel is that of the poll loop.
\<close>

definition init ::
  "'d I2CDevice \<Rightarrow> nat \<Rightarrow> 'd world \<Rightarrow> (error + 'd VL53L1X) option \<times> 'd world" where
  "init i2c fuel w =
     (let self = \<lparr>i2c_device = i2c\<rparr> in
      case model_info self w of
        (Inl e, w1) \<Rightarrow> (Some (Inl e), w1)
      | (Inr (model_id, module_type, mask_rev), w1) \<Rightarrow>
          if model_id \<noteq> 0xEA \<or> module_type \<noteq> 0xCC \<or> mask_rev \<noteq> 0x10
          then (Some (Inl (RuntimeError ''Wrong sensor ID or type!'')), w1)
          else
            (case sensor_init self fuel w1 of
               (None, w2) \<Rightarrow> (None, w2)
             | (Some (Inl e), w2) \<Rightarrow> (Some (Inl e), w2)
             | (Some (Inr u), w2) \<Rightarrow> (Some (Inr self), w2)))"

section \<open>Transactions as they appear in the trace\<close>

definition write_txn :: "int \<Rightarrow> byte list \<Rightarrow> event list" where
  "write_txn address payload = [Enter, Write (addr_bytes address @ payload), Exit]"

definition read_txn :: "int \<Rightarrow> nat \<Rightarrow> event list" where
  "read_txn address n = [Enter, Write (addr_bytes address), ReadInto n, Exit]"

text \<open>Whether a bus session is open after a run of events.\<close>

fun held_after :: "bool \<Rightarrow> event list \<Rightarrow> bool" where
  "held_after h [] = h"
| "held_after h (Enter # es) = held_after True es"
| "held_after h (Exit # es) = held_after False es"
| "held_after h (Write bs # es) = held_after h es"
| "held_after h (ReadInto n # es) = held_after h es"
| "held_after h (Sleep # es) = held_after h es"

section \<open>Transports for concrete runs\<close>

text \<open>
  A transport that never raises: a write does nothing, a read delivers the next of
  the answers held in the device state (and nothing once they are used up).
\<close>

definition canned :: "(byte list list) I2CDevice" where
  "canned =
     \<lparr>i2c_write = (\<lambda>bs d. (Inr (), d)),
      i2c_readinto = (\<lambda>n d. case d of [] \<Rightarrow> (Inr [], []) | r # rs \<Rightarrow> (Inr r, rs))\<rparr>"

text \<open>
  A fault-injecting transport: the state counts the calls still to succeed; once it
  is 0 every call raises \<open>OSError\<close>. A read that succeeds delivers the identity bytes.
\<close>

definition faulty :: "nat I2CDevice" where
  "faulty =
     \<lparr>i2c_write = (\<lambda>bs d. case d of 0 \<Rightarrow> (Inl OSError, 0) | Suc k \<Rightarrow> (Inr (), k)),
      i2c_readinto = (\<lambda>n d. case d of 0 \<Rightarrow> (Inl OSError, 0)
                                   | Suc k \<Rightarrow> (Inr [0xEA, 0xCC, 0x10], k))\<rparr>"

text \<open>
  Modelled from the spec: the device state of the idealized loopback transport of the
  round-trip property, which the source does not contain. It is a register file with
  a cell for every index, and the index the next transfer starts at.
\<close>

record regfile =
  mem :: "nat \<Rightarrow> byte"
  idx :: nat

text \<open>
  Modelled from the spec: storing a payload in the register file of the loopback
  transport, byte after byte from index \<open>p\<close> on.
\<close>

fun store :: "(nat \<Rightarrow> byte) \<Rightarrow> nat \<Rightarrow> byte list \<Rightarrow> (nat \<Rightarrow> byte)" where
  "store m p [] = m"
| "store m p (b # bs) = store (m(p := b)) (Suc p) bs"

text \<open>
  Modelled from the spec: the idealized loopback transport. A write of two address
  bytes and a payload sets the index and stores the payload from there on, a read
  delivers the bytes from the index on, and the index moves past what was
  transferred. It never raises.
\<close>

definition loopback :: "regfile I2CDevice" where
  "loopback =
     \<lparr>i2c_write = (\<lambda>bs d. case bs of
                     hi # lo # payload \<Rightarrow>
                       (let p = unat hi * 256 + unat lo
                        in (Inr (), \<lparr>mem = store (mem d) p payload, idx = p + length payload\<rparr>))
                   | _ \<Rightarrow> (Inr (), d)),
      i2c_readinto = (\<lambda>n d. (Inr (map (\<lambda>i. mem d (idx d + i)) [0 ..< n]),
                              d\<lparr>idx := idx d + n\<rparr>))\<rparr>"

text \<open>
  A step of the driver that only adds to the trace, and adds no write of more than
  three bytes (two address bytes and at most one byte of payload).
\<close>

definition short_writes_only :: "('d world \<Rightarrow> 'r \<times> 'd world) \<Rightarrow> bool" where
  "short_writes_only f =
     (\<forall>w. \<exists>es. trace (snd (f w)) = trace w @ es \<and>
             (\<forall>bs. Write bs \<in> set es \<longrightarrow> length bs \<le> 3))"

text \<open>The two read transactions of one evaluation of \<open>data_ready\<close>.\<close>

definition poll_txns :: "event list" where
  "poll_txns = read_txn GPIO__TIO_HV_STATUS 1 @ read_txn GPIO_HV_MUX__CTRL 1"

section \<open>Properties\<close>

subsection \<open>Evaluation of concrete runs\<close>

lemmas run_simps =
  read_registerN_def write_registerN_def with_device_def dev_write_def dev_readinto_def
  log_def pack_H_def addr_bytes_def fill_buffer_def slice_to_def getitem_def unpack_H_def
  emitted_def read_txn_def write_txn_def canned_def faulty_def
  GPIO__TIO_HV_STATUS_def GPIO_HV_MUX__CTRL_def SYSTEM__MODE_START_def
  SYSTEM__INTERRUPT_CLEAR_def VL53L1X_RESULT__FINAL_CROSSTALK_CORRECTED_RANGE_MM_SD0_def
  VL53L1X_IDENTIFICATION__MODEL_ID_def VL53L1X_VHV_CONFIG__TIMEOUT_MACROP_LOOP_BOUND_def

subsection \<open>The register transaction primitives\<close>

lemma pack_H_in_range: "0 \<le> a \<Longrightarrow> a < 65536 \<Longrightarrow> pack_H a = Inr (addr_bytes a)"
  by (simp add: pack_H_def)

lemma slice_to_all: "slice_to data (int (length data)) = data"
  by (simp add: slice_to_def)

lemma write_registerN_eq:
  assumes "0 \<le> a" and "a < 65536"
  shows "write_registerN self a data len w =
     (let payload = slice_to data (case len of None \<Rightarrow> int (length data) | Some k \<Rightarrow> k);
          r = i2c_write (i2c_device self) (addr_bytes a @ payload) (dev w)
      in (fst r, \<lparr>dev = snd r, trace = trace w @ write_txn a payload\<rparr>))"
  using assms
  by (simp add: write_registerN_def with_device_def dev_write_def log_def Let_def
        pack_H_in_range write_txn_def split: prod.splits)

lemma read_registerN_eq:
  assumes "0 \<le> a" and "a < 65536" and "0 \<le> n"
  shows "read_registerN self a n w =
     (case i2c_write (i2c_device self) (addr_bytes a) (dev w) of
        (Inl e, d1) \<Rightarrow>
          (Inl e, \<lparr>dev = d1, trace = trace w @ [Enter, Write (addr_bytes a), Exit]\<rparr>)
      | (Inr u, d1) \<Rightarrow>
          (case i2c_readinto (i2c_device self) (nat n) d1 of
             (Inl e, d2) \<Rightarrow> (Inl e, \<lparr>dev = d2, trace = trace w @ read_txn a (nat n)\<rparr>)
           | (Inr bs, d2) \<Rightarrow>
               (Inr (fill_buffer (nat n) bs),
                \<lparr>dev = d2, trace = trace w @ read_txn a (nat n)\<rparr>)))"
  using assms
  by (auto simp add: read_registerN_def with_device_def dev_write_def dev_readinto_def log_def
        pack_H_in_range read_txn_def split: prod.splits sum.splits)

lemma length_fill_buffer: "length (fill_buffer n bs) = n"
  by (simp add: fill_buffer_def)

lemma read_registerN_length:
  "read_registerN self a n w = (Inr buf, w') \<Longrightarrow> int (length buf) = n"
  by (auto simp add: read_registerN_def with_device_def dev_write_def dev_readinto_def log_def
        length_fill_buffer split: prod.splits sum.splits if_splits)

lemma read_one_byte:
  "read_registerN self a 1 w = (Inr buf, w') \<Longrightarrow> \<exists>b. buf = [b]"
  using read_registerN_length [of self a 1 w buf w']
  by (cases buf) simp_all

lemma emitted_append: "trace w' = trace w @ es \<Longrightarrow> emitted w w' = es"
  by (simp add: emitted_def)

lemma write_registerN_emitted:
  "emitted w (snd (write_registerN self a data len w)) =
     (case pack_H a of
        Inl e \<Rightarrow> [Enter, Exit]
      | Inr hdr \<Rightarrow>
          [Enter,
           Write (hdr @ slice_to data (case len of None \<Rightarrow> int (length data) | Some k \<Rightarrow> k)),
           Exit])"
  by (rule emitted_append)
    (auto simp add: write_registerN_def with_device_def dev_write_def log_def Let_def
      split: sum.splits prod.splits)

lemma read_registerN_emitted:
  "emitted w (snd (read_registerN self a n w)) =
     (if n < 0 then []
      else case pack_H a of
        Inl e \<Rightarrow> [Enter, Exit]
      | Inr hdr \<Rightarrow>
          (case fst (i2c_write (i2c_device self) hdr (dev w)) of
             Inl e \<Rightarrow> [Enter, Write hdr, Exit]
           | Inr u \<Rightarrow> [Enter, Write hdr, ReadInto (nat n), Exit]))"
  by (rule emitted_append)
    (auto simp add: read_registerN_def with_device_def dev_write_def dev_readinto_def log_def
      split: sum.splits prod.splits)

lemma read_registerN_extends:
  "\<exists>es. trace (snd (read_registerN self a n w)) = trace w @ es \<and>
        (\<forall>bs. Write bs \<in> set es \<longrightarrow> length bs \<le> 3) \<and>
        (0 \<le> a \<longrightarrow> a < 65536 \<longrightarrow> 0 \<le> n \<longrightarrow> take 2 es = [Enter, Write (addr_bytes a)])"
  by (auto simp add: read_registerN_def with_device_def dev_write_def dev_readinto_def log_def
        pack_H_def addr_bytes_def split: prod.splits sum.splits)

lemma read_registerN_success:
  assumes "read_registerN self a n w = (Inr buf, w')" and "0 \<le> a" and "a < 65536"
  shows "trace w' = trace w @ read_txn a (nat n)"
  using assms
  by (auto simp add: read_registerN_def with_device_def dev_write_def dev_readinto_def log_def
        pack_H_def read_txn_def split: prod.splits sum.splits if_splits)

lemma addr_bytes_big_endian:
  assumes "0 \<le> a" and "a < 65536"
  shows "\<exists>hi lo. addr_bytes a = [hi, lo] \<and> uint hi * 256 + uint lo = a"
proof -
  have "a div 256 < 256" using assms by simp
  moreover have "0 \<le> a div 256" using assms by simp
  ultimately have "uint (word_of_int (a div 256) :: byte) = a div 256"
    by (simp add: uint_word_of_int take_bit_eq_mod)
  moreover have "uint (word_of_int (a mod 256) :: byte) = a mod 256"
    by (simp add: uint_word_of_int take_bit_eq_mod)
  ultimately show ?thesis
    by (simp add: addr_bytes_def)
qed

text \<open>
  Claim C10. For a 16-bit register address, a payload and an explicit length that is
  not negative, the write primitive transmits the two address bytes, high byte first,
  followed by the first \<open>length\<close> bytes of the payload and nothing more; without a
  length it transmits the address bytes followed by the whole payload.
\<close>

theorem write_registerN_transmits:
  assumes "0 \<le> address" and "address < 65536" and "0 \<le> n"
  shows "emitted w (snd (write_registerN self address data (Some n) w)) =
           [Enter, Write (addr_bytes address @ take (nat n) data), Exit] \<and>
         emitted w (snd (write_registerN self address data None w)) =
           [Enter, Write (addr_bytes address @ data), Exit] \<and>
         (\<exists>hi lo. addr_bytes address = [hi, lo] \<and> uint hi * 256 + uint lo = address)"
  using assms addr_bytes_big_endian [OF assms(1,2)]
  by (simp add: write_registerN_emitted pack_H_def slice_to_def)

theorem write_registerN_transmits_witness:
  "(0::int) \<le> 0x0087 \<and> (0x0087::int) < 65536 \<and> (0::int) \<le> 1 \<and>
   emitted \<lparr>dev = [], trace = []\<rparr>
     (snd (write_registerN \<lparr>i2c_device = canned\<rparr> 0x0087 [0x40, 0x41, 0x42] (Some 1)
             \<lparr>dev = [], trace = []\<rparr>)) = [Enter, Write [0x00, 0x87, 0x40], Exit] \<and>
   emitted \<lparr>dev = [], trace = []\<rparr>
     (snd (write_registerN \<lparr>i2c_device = canned\<rparr> 0x0087 [0x40, 0x41, 0x42] None
             \<lparr>dev = [], trace = []\<rparr>)) = [Enter, Write [0x00, 0x87, 0x40, 0x41, 0x42], Exit]"
  using write_registerN_transmits [of "0x0087" 1 "\<lparr>dev = [], trace = []\<rparr>"
      "\<lparr>i2c_device = canned\<rparr>" "[0x40, 0x41, 0x42]"]
  by (simp add: addr_bytes_def)

text \<open>
  Claim C8. After a call of the write primitive or of the read primitive no bus
  session is left open, and every \<open>Enter\<close> has its \<open>Exit\<close>, whatever the
  transport does, so also when a bus call raises in the middle of the operation.
\<close>

theorem session_released:
  "\<not> held_after False (emitted w (snd (write_registerN self address data len w))) \<and>
   count_list (emitted w (snd (write_registerN self address data len w))) Enter =
     count_list (emitted w (snd (write_registerN self address data len w))) Exit \<and>
   \<not> held_after False (emitted w (snd (read_registerN self address n w))) \<and>
   count_list (emitted w (snd (read_registerN self address n w))) Enter =
     count_list (emitted w (snd (read_registerN self address n w))) Exit"
  by (simp add: write_registerN_emitted read_registerN_emitted split: sum.splits)

text \<open>
  Claim C8 on a transport that accepts the address and raises on the read that follows:
  the primitive raises \<open>OSError\<close> and the session is closed.
\<close>

theorem session_released_fault:
  "read_registerN \<lparr>i2c_device = faulty\<rparr> 0x0096 2 \<lparr>dev = 1, trace = []\<rparr> =
     (Inl OSError, \<lparr>dev = 0, trace = [Enter, Write [0x00, 0x96], ReadInto 2, Exit]\<rparr>) \<and>
   \<not> held_after False (emitted \<lparr>dev = 1, trace = []\<rparr>
         (snd (read_registerN \<lparr>i2c_device = faulty\<rparr> 0x0096 2 \<lparr>dev = 1, trace = []\<rparr>)))"
  using session_released [of "\<lparr>dev = 1, trace = []\<rparr>" "\<lparr>i2c_device = faulty\<rparr>" "0x0096" "[]" None 2]
  by (simp add: read_registerN_def with_device_def dev_write_def dev_readinto_def log_def
        pack_H_def addr_bytes_def faulty_def)

subsection \<open>The control operations\<close>

text \<open>
  Claim C7. In every state and on every transport, \<open>start_ranging\<close> issues one
  write of the byte 0x40 to register 0x0087, \<open>stop_ranging\<close> one write of the byte
  0x00 to register 0x0087, and \<open>clear_interrupt\<close> one write of the byte 0x01 to
  register 0x0086; what is issued does not depend on the state.
\<close>

theorem control_operations_write:
  "emitted w (snd (start_ranging self w)) = [Enter, Write [0x00, 0x87, 0x40], Exit] \<and>
   emitted w (snd (stop_ranging self w)) = [Enter, Write [0x00, 0x87, 0x00], Exit] \<and>
   emitted w (snd (clear_interrupt self w)) = [Enter, Write [0x00, 0x86, 0x01], Exit]"
  by (simp add: start_ranging_def stop_ranging_def clear_interrupt_def write_registerN_emitted
        SYSTEM__MODE_START_def SYSTEM__INTERRUPT_CLEAR_def pack_H_def addr_bytes_def slice_to_def)

subsection \<open>The status check\<close>

lemma polarity_bit: "(drop_bit 4 ((b::int) AND 0x10) AND 0x01 \<noteq> 0) = (b AND 0x10 \<noteq> 0)"
proof -
  have A: "(b AND 0x10 \<noteq> 0) = bit b 4"
    using and_exp_eq_0_iff_not_bit [of b 4] by simp
  have "drop_bit 4 (16::int) = 1"
    by (simp add: drop_bit_eq_div)
  then have B: "drop_bit 4 (b AND 0x10) AND 0x01 = drop_bit 4 b AND 1"
    by (simp add: and.assoc)
  have C: "(drop_bit 4 b AND 1 \<noteq> 0) = (drop_bit 4 b AND 1 = 1)"
    by (simp add: and_one_eq)
  show ?thesis
    unfolding A B C by (simp add: bit_iff_and_drop_bit_eq_1)
qed

lemma interrupt_polarity_value:
  assumes "read_registerN self GPIO_HV_MUX__CTRL 1 w = (Inr [mux_byte], w')"
  shows "interrupt_polarity self w = (Inr (if uint mux_byte AND 0x10 \<noteq> 0 then 0 else 1), w')"
  using assms polarity_bit [of "uint mux_byte"]
  by (simp add: interrupt_polarity_def getitem_def Let_def)

lemma data_ready_value:
  assumes "read_registerN self GPIO__TIO_HV_STATUS 1 w = (Inr [status_byte], w1)"
    and "read_registerN self GPIO_HV_MUX__CTRL 1 w1 = (Inr [mux_byte], w2)"
  shows "data_ready self w =
           (Inr (uint status_byte AND 0x01 = (if uint mux_byte AND 0x10 \<noteq> 0 then 0 else 1)), w2)"
  using assms(1) interrupt_polarity_value [OF assms(2)]
  by (simp add: data_ready_def getitem_def)

text \<open>
  Claim C3. When the read of the status register 0x0031 delivers \<open>status_byte\<close> and
  the read of the polarity register 0x0030 delivers \<open>mux_byte\<close>, \<open>data_ready\<close>
  returns true exactly when \<open>status_byte & 0x01\<close> equals the polarity value, which
  is 0 when \<open>mux_byte & 0x10\<close> is not 0 and 1 otherwise.
\<close>

theorem data_ready_iff:
  assumes "read_registerN self GPIO__TIO_HV_STATUS 1 w = (Inr [status_byte], w1)"
    and "read_registerN self GPIO_HV_MUX__CTRL 1 w1 = (Inr [mux_byte], w2)"
  shows "data_ready self w =
           (Inr (uint status_byte AND 0x01 = (if uint mux_byte AND 0x10 \<noteq> 0 then 0 else 1)), w2)"
  using assms by (rule data_ready_value)

theorem data_ready_iff_witness:
  "read_registerN \<lparr>i2c_device = canned\<rparr> GPIO__TIO_HV_STATUS 1
       \<lparr>dev = [[0x00], [0x10]], trace = []\<rparr> =
     (Inr [0x00], \<lparr>dev = [[0x10]], trace = [Enter, Write [0x00, 0x31], ReadInto 1, Exit]\<rparr>) \<and>
   read_registerN \<lparr>i2c_device = canned\<rparr> GPIO_HV_MUX__CTRL 1
       \<lparr>dev = [[0x10]], trace = [Enter, Write [0x00, 0x31], ReadInto 1, Exit]\<rparr> =
     (Inr [0x10],
      \<lparr>dev = [], trace = [Enter, Write [0x00, 0x31], ReadInto 1, Exit,
                           Enter, Write [0x00, 0x30], ReadInto 1, Exit]\<rparr>) \<and>
   data_ready \<lparr>i2c_device = canned\<rparr> \<lparr>dev = [[0x00], [0x10]], trace = []\<rparr> =
     (Inr True,
      \<lparr>dev = [], trace = [Enter, Write [0x00, 0x31], ReadInto 1, Exit,
                           Enter, Write [0x00, 0x30], ReadInto 1, Exit]\<rparr>)"
proof -
  have st: "read_registerN \<lparr>i2c_device = canned\<rparr> GPIO__TIO_HV_STATUS 1
       \<lparr>dev = [[0x00], [0x10]], trace = []\<rparr> =
     (Inr [0x00], \<lparr>dev = [[0x10]], trace = [Enter, Write [0x00, 0x31], ReadInto 1, Exit]\<rparr>)"
    by (simp add: run_simps)
  have mx: "read_registerN \<lparr>i2c_device = canned\<rparr> GPIO_HV_MUX__CTRL 1
       \<lparr>dev = [[0x10]], trace = [Enter, Write [0x00, 0x31], ReadInto 1, Exit]\<rparr> =
     (Inr [0x10],
      \<lparr>dev = [], trace = [Enter, Write [0x00, 0x31], ReadInto 1, Exit,
                           Enter, Write [0x00, 0x30], ReadInto 1, Exit]\<rparr>)"
    by (simp add: run_simps)
  show ?thesis
    using data_ready_iff [OF st mx] st mx by simp
qed

lemma interrupt_polarity_world:
  "snd (interrupt_polarity self w) = snd (read_registerN self GPIO_HV_MUX__CTRL 1 w)"
proof (cases "read_registerN self GPIO_HV_MUX__CTRL 1 w")
  case (Pair r w1)
  show ?thesis
  proof (cases r)
    case (Inl e)
    with Pair show ?thesis by (simp add: interrupt_polarity_def)
  next
    case (Inr buf)
    with Pair read_one_byte [of self GPIO_HV_MUX__CTRL w buf w1] show ?thesis
      by (auto simp add: interrupt_polarity_def getitem_def Let_def)
  qed
qed

lemma interrupt_polarity_success:
  assumes "interrupt_polarity self w = (Inr pol, w')"
  shows "\<exists>buf. read_registerN self GPIO_HV_MUX__CTRL 1 w = (Inr buf, w')"
  using assms
  by (auto simp add: interrupt_polarity_def Let_def split: prod.splits sum.splits)

lemma data_ready_world:
  "snd (data_ready self w) =
     (case read_registerN self GPIO__TIO_HV_STATUS 1 w of
        (Inl e, w1) \<Rightarrow> w1
      | (Inr buf, w1) \<Rightarrow> snd (read_registerN self GPIO_HV_MUX__CTRL 1 w1))"
proof (cases "read_registerN self GPIO__TIO_HV_STATUS 1 w")
  case (Pair r w1)
  show ?thesis
  proof (cases r)
    case (Inl e)
    with Pair show ?thesis by (simp add: data_ready_def)
  next
    case (Inr buf)
    with Pair read_one_byte [of self GPIO__TIO_HV_STATUS w buf w1]
      interrupt_polarity_world [of self w1]
    show ?thesis
      by (auto simp add: data_ready_def getitem_def split: prod.splits sum.splits)
  qed
qed

lemma data_ready_success:
  assumes "data_ready self w = (Inr b, w')"
  shows "\<exists>buf w1 buf'. read_registerN self GPIO__TIO_HV_STATUS 1 w = (Inr buf, w1) \<and>
           read_registerN self GPIO_HV_MUX__CTRL 1 w1 = (Inr buf', w')"
  using assms
  by (auto simp add: data_ready_def split: prod.splits sum.splits
        dest: interrupt_polarity_success)

lemma data_ready_extends:
  "\<exists>es. trace (snd (data_ready self w)) = trace w @ es \<and>
        (\<forall>bs. Write bs \<in> set es \<longrightarrow> length bs \<le> 3) \<and>
        take 2 es = [Enter, Write [0x00, 0x31]]"
proof (cases "read_registerN self GPIO__TIO_HV_STATUS 1 w")
  case (Pair r w1)
  obtain es where es: "trace (snd (read_registerN self GPIO__TIO_HV_STATUS 1 w)) = trace w @ es"
    "\<forall>bs. Write bs \<in> set es \<longrightarrow> length bs \<le> 3" "take 2 es = [Enter, Write [0x00, 0x31]]"
    using read_registerN_extends [of self GPIO__TIO_HV_STATUS 1 w]
    by (auto simp add: GPIO__TIO_HV_STATUS_def addr_bytes_def)
  obtain es' where es': "trace (snd (read_registerN self GPIO_HV_MUX__CTRL 1 w1)) = trace w1 @ es'"
    "\<forall>bs. Write bs \<in> set es' \<longrightarrow> length bs \<le> 3"
    using read_registerN_extends [of self GPIO_HV_MUX__CTRL 1 w1] by blast
  have len: "2 \<le> length es"
    using es(3) by (cases es; cases "tl es") auto
  show ?thesis
  proof (cases r)
    case (Inl e)
    with Pair es show ?thesis by (simp add: data_ready_world)
  next
    case (Inr buf)
    with Pair es es' len have "trace (snd (data_ready self w)) = trace w @ (es @ es')"
      by (simp add: data_ready_world)
    moreover have "\<forall>bs. Write bs \<in> set (es @ es') \<longrightarrow> length bs \<le> 3"
      using es(2) es'(2) by auto
    moreover have "take 2 (es @ es') = [Enter, Write [0x00, 0x31]]"
      using es(3) len by simp
    ultimately show ?thesis by blast
  qed
qed

text \<open>
  Claim C4, as amended. A call of \<open>data_ready\<close> addresses the status register 0x0031
  first; a call in which nothing raises issues exactly two read transactions, of the
  status register 0x0031 first and of the polarity register 0x0030 second.
\<close>

theorem data_ready_reads:
  "take 2 (emitted w (snd (data_ready self w))) = [Enter, Write [0x00, 0x31]] \<and>
   (fst (data_ready self w) = Inr b \<longrightarrow>
      emitted w (snd (data_ready self w)) =
        read_txn GPIO__TIO_HV_STATUS 1 @ read_txn GPIO_HV_MUX__CTRL 1)"
proof
  obtain es where "trace (snd (data_ready self w)) = trace w @ es"
    and "take 2 es = [Enter, Write [0x00, 0x31]]"
    using data_ready_extends [of self w] by blast
  then show "take 2 (emitted w (snd (data_ready self w))) = [Enter, Write [0x00, 0x31]]"
    by (simp add: emitted_def)
next
  show "fst (data_ready self w) = Inr b \<longrightarrow>
      emitted w (snd (data_ready self w)) =
        read_txn GPIO__TIO_HV_STATUS 1 @ read_txn GPIO_HV_MUX__CTRL 1"
  proof
    assume "fst (data_ready self w) = Inr b"
    then have "data_ready self w = (Inr b, snd (data_ready self w))"
      by (simp add: prod_eq_iff)
    then obtain buf w1 buf' where
      st: "read_registerN self GPIO__TIO_HV_STATUS 1 w = (Inr buf, w1)" and
      mx: "read_registerN self GPIO_HV_MUX__CTRL 1 w1 = (Inr buf', snd (data_ready self w))"
      using data_ready_success by blast
    have "trace w1 = trace w @ read_txn GPIO__TIO_HV_STATUS 1"
      using read_registerN_success [OF st] by (simp add: GPIO__TIO_HV_STATUS_def)
    moreover have "trace (snd (data_ready self w)) = trace w1 @ read_txn GPIO_HV_MUX__CTRL 1"
      using read_registerN_success [OF mx] by (simp add: GPIO_HV_MUX__CTRL_def)
    ultimately show "emitted w (snd (data_ready self w)) =
        read_txn GPIO__TIO_HV_STATUS 1 @ read_txn GPIO_HV_MUX__CTRL 1"
      by (simp add: emitted_def)
  qed
qed

theorem data_ready_reads_witness:
  "fst (data_ready \<lparr>i2c_device = canned\<rparr> \<lparr>dev = [[0x00], [0x10]], trace = []\<rparr>) = Inr True \<and>
   emitted \<lparr>dev = [[0x00], [0x10]], trace = []\<rparr>
     (snd (data_ready \<lparr>i2c_device = canned\<rparr> \<lparr>dev = [[0x00], [0x10]], trace = []\<rparr>)) =
     [Enter, Write [0x00, 0x31], ReadInto 1, Exit, Enter, Write [0x00, 0x30], ReadInto 1, Exit]"
proof -
  have r: "fst (data_ready \<lparr>i2c_device = canned\<rparr> \<lparr>dev = [[0x00], [0x10]], trace = []\<rparr>)
             = Inr True"
    by (simp add: data_ready_def interrupt_polarity_def run_simps)
  show ?thesis
    using data_ready_reads [of "\<lparr>dev = [[0x00], [0x10]], trace = []\<rparr>"
        "\<lparr>i2c_device = canned\<rparr>" True] r
    by (simp add: read_txn_def addr_bytes_def GPIO__TIO_HV_STATUS_def GPIO_HV_MUX__CTRL_def)
qed

text \<open>
  Claim C4 as stated, with the polarity register read first, fails on a transport
  that answers every read: the status register is read first.
\<close>

theorem data_ready_polarity_first_counterexample:
  "emitted \<lparr>dev = [[0x00], [0x10]], trace = []\<rparr>
     (snd (data_ready \<lparr>i2c_device = canned\<rparr> \<lparr>dev = [[0x00], [0x10]], trace = []\<rparr>)) \<noteq>
     read_txn GPIO_HV_MUX__CTRL 1 @ read_txn GPIO__TIO_HV_STATUS 1"
  by (simp add: data_ready_def interrupt_polarity_def run_simps)

subsection \<open>The distance\<close>

lemma bitlen_10: "bitlen 10 = 4"
  by (simp add: compute_bitlen)

lemma bitlen_u16:
  assumes "0 < v" and "v < 65536"
  shows "1 \<le> bitlen v \<and> bitlen v \<le> 16"
proof
  show "1 \<le> bitlen v"
    using assms(1) bitlen_eq_zero_iff [of v] bitlen_nonneg [of v] by linarith
  show "bitlen v \<le> 16"
  proof (rule ccontr)
    assume "\<not> bitlen v \<le> 16"
    then have "16 \<le> nat (bitlen v - 1)" by simp
    then have "(2::int) ^ 16 \<le> 2 ^ nat (bitlen v - 1)"
      by (rule power_increasing) simp
    with bitlen_bounds [OF assms(1)] assms(2) show False by simp
  qed
qed

lemma round_half_even_bounds:
  assumes "0 < d"
  shows "n div d \<le> round_half_even n d \<and> round_half_even n d \<le> n div d + 1"
  by (simp add: round_half_even_def Let_def)

lemma round_half_even_exact:
  assumes "d dvd n" and "0 < d"
  shows "round_half_even n d = n div d"
  using assms by (simp add: round_half_even_def Let_def)

lemma round_half_even_error:
  assumes "0 < d"
  shows "\<bar>real_of_int (round_half_even n d) - real_of_int n / real_of_int d\<bar> \<le> 1 / 2"
proof -
  define m where "m = n div d"
  define r where "r = n mod d"
  have n: "n = m * d + r" by (simp add: m_def r_def)
  have r: "0 \<le> r" "r < d" using assms by (simp_all add: r_def)
  have q: "real_of_int n / real_of_int d = real_of_int m + real_of_int r / real_of_int d"
    using assms by (simp add: n field_simps)
  show ?thesis
  proof (cases "d < 2 * r \<or> (2 * r = d \<and> odd m)")
    case True
    then have up: "round_half_even n d = m + 1"
      by (simp add: round_half_even_def Let_def m_def r_def)
    from True have "d \<le> 2 * r" by auto
    then have "real_of_int d \<le> 2 * real_of_int r" by linarith
    then have "1 / 2 \<le> real_of_int r / real_of_int d"
      using assms by (simp add: field_simps)
    moreover have "real_of_int r / real_of_int d < 1"
      using assms r by simp
    ultimately show ?thesis
      unfolding up q by simp
  next
    case False
    then have dn: "round_half_even n d = m"
      by (simp add: round_half_even_def Let_def m_def r_def)
    from False have "2 * r \<le> d" by auto
    then have "2 * real_of_int r \<le> real_of_int d" by linarith
    then have "real_of_int r / real_of_int d \<le> 1 / 2"
      using assms by (simp add: field_simps)
    moreover have "0 \<le> real_of_int r / real_of_int d"
      using assms r by simp
    ultimately show ?thesis
      unfolding dn q by simp
  qed
qed

lemma exponent_shift_u16:
  assumes "0 < v" and "v < 65536"
  shows "\<exists>k::nat. exponent_shift v 10 = int k \<and> 40 \<le> k \<and> k \<le> 56 \<and>
           2 ^ 52 \<le> (v * 2 ^ k) div 10 \<and> (v * 2 ^ k) div 10 < 2 ^ 53"
proof -
  define b where "b = bitlen v"
  have b: "1 \<le> b" "b \<le> 16"
    using bitlen_u16 [OF assms] by (simp_all add: b_def)
  have lo: "2 ^ nat (b - 1) \<le> v" and hi: "v < 2 ^ nat b"
    using bitlen_bounds [OF assms(1)] by (simp_all add: b_def)
  define j where "j = nat (57 - b)"
  have j: "41 \<le> j" "j \<le> 56" "int j = 57 - b"
    using b by (simp_all add: j_def)
  have k0: "53 - (bitlen v - bitlen 10) = int j"
    using j(3) by (simp add: bitlen_10 b_def)
  define X where "X = v * 2 ^ j"
  have "nat (b - 1) + j = 56" using b by (simp add: j_def)
  then have "(2::int) ^ 56 = 2 ^ nat (b - 1) * 2 ^ j"
    by (simp flip: power_add)
  also have "\<dots> \<le> v * 2 ^ j"
    using lo by (rule mult_right_mono) simp
  finally have X1: "2 ^ 56 \<le> X" by (simp add: X_def)
  have "nat b + j = 57" using b by (simp add: j_def)
  then have "(2::int) ^ 57 = 2 ^ nat b * 2 ^ j"
    by (simp flip: power_add)
  moreover have "v * 2 ^ j < 2 ^ nat b * 2 ^ j"
    using hi by (rule mult_strict_right_mono) simp
  ultimately have X2: "X < 2 ^ 57" by (simp add: X_def)
  have sc: "scaled v 10 (int j) = (X, 10)"
    by (simp add: scaled_def X_def)
  show ?thesis
  proof (cases "X div 10 < 2 ^ 53")
    case True
    then have "exponent_shift v 10 = int j"
      unfolding exponent_shift_def k0 sc Let_def using j(1,2) by simp
    moreover have "2 ^ 52 \<le> X div 10"
      using X1 by simp
    ultimately show ?thesis
      using True j(1,2) unfolding X_def by (intro exI [of _ j]) simp
  next
    case False
    define Y where "Y = v * 2 ^ (j - 1)"
    have "(2::int) ^ j = 2 * 2 ^ (j - 1)"
      using j(1) by (cases j) simp_all
    then have XY: "X = 2 * Y" by (simp add: X_def Y_def)
    have "exponent_shift v 10 = int j - 1"
      unfolding exponent_shift_def k0 sc Let_def using False j(1,2) by simp
    then have "exponent_shift v 10 = int (j - 1)"
      using j(1) by simp
    moreover have "2 ^ 52 \<le> Y div 10"
      using False XY by simp
    moreover have "Y div 10 < 2 ^ 53"
      using X2 XY by simp
    moreover have "40 \<le> j - 1" "j - 1 \<le> 56"
      using j(1,2) by arith+
    ultimately show ?thesis
      unfolding Y_def by (intro exI [of _ "j - 1"]) simp
  qed
qed

lemma dvd_10_scaled:
  assumes "5 dvd v" and "1 \<le> k"
  shows "10 dvd (v::int) * 2 ^ k"
proof -
  from assms(1) obtain u where u: "v = 5 * u" ..
  from assms(2) obtain k' where k': "k = Suc k'" by (cases k) simp_all
  have "v * 2 ^ k = 10 * (u * 2 ^ k')" by (simp add: u k')
  then show ?thesis by simp
qed

lemma dvd_5_of_scaled:
  assumes "10 * m = (v::int) * 2 ^ k"
  shows "5 dvd v"
proof -
  have "(5::int) dvd 10 * m" by simp
  then have "5 dvd v * 2 ^ k" using assms by simp
  moreover have "coprime (5::int) (2 ^ k)"
    by simp
  ultimately show ?thesis
    by (simp add: coprime_dvd_mult_left_iff)
qed

text \<open>What the division by 10 gives for a 16-bit operand.\<close>

lemma truediv_u16:
  assumes "0 < v" and "v < 65536"
  shows "\<exists>cm. truediv v 10 = Inr cm \<and> \<not> negative cm \<and>
           2 ^ 52 \<le> significand cm \<and> significand cm < 2 ^ 53 \<and> exponent cm \<le> 0 \<and>
           \<bar>float_value cm - real_of_int v / 10\<bar> \<le> 1 / 2 ^ (nat (- exponent cm) + 1) \<and>
           (float_value cm = real_of_int v / 10) = (5 dvd v)"
proof -
  obtain k :: nat where ks: "exponent_shift v 10 = int k" and k: "40 \<le> k" "k \<le> 56"
    and fl: "2 ^ 52 \<le> (v * 2 ^ k) div 10" "(v * 2 ^ k) div 10 < 2 ^ 53"
    using exponent_shift_u16 [OF assms] by blast
  define m where "m = round_half_even (v * 2 ^ k) 10"
  have mb: "(v * 2 ^ k) div 10 \<le> m" "m \<le> (v * 2 ^ k) div 10 + 1"
    using round_half_even_bounds [of 10 "v * 2 ^ k"] by (simp_all add: m_def)
  have err: "\<bar>real_of_int m - real_of_int (v * 2 ^ k) / 10\<bar> \<le> 1 / 2"
    using round_half_even_error [of 10 "v * 2 ^ k"] by (simp add: m_def)
  have exact: "(real_of_int m / 2 ^ k = real_of_int v / 10) = (5 dvd v)"
  proof
    assume "real_of_int m / 2 ^ k = real_of_int v / 10"
    then have "real_of_int (10 * m) = real_of_int (v * 2 ^ k)"
      by (simp add: field_simps)
    then have "10 * m = v * 2 ^ k" by (simp only: of_int_eq_iff)
    then show "5 dvd v" by (rule dvd_5_of_scaled)
  next
    assume "5 dvd v"
    then have d: "10 dvd v * 2 ^ k"
      using k(1) by (intro dvd_10_scaled) simp_all
    then have "m = (v * 2 ^ k) div 10"
      by (simp add: m_def round_half_even_exact)
    then have "real_of_int m = real_of_int (v * 2 ^ k) / 10"
      using d by (simp add: real_of_int_div)
    then show "real_of_int m / 2 ^ k = real_of_int v / 10" by simp
  qed
  have abs: "\<bar>v\<bar> = v" using assms(1) by simp
  have td: "truediv v 10 =
      (if m = 2 ^ 53 then Inr \<lparr>negative = False, significand = 2 ^ 52, exponent = 1 - int k\<rparr>
       else Inr \<lparr>negative = False, significand = m, exponent = - int k\<rparr>)"
    using assms(1) fl(1) mb(1) k
    by (simp add: truediv_def abs ks scaled_def m_def [symmetric] Let_def)
  have scale: "\<bar>real_of_int m / 2 ^ k - real_of_int v / 10\<bar> \<le> (1 / 2) / 2 ^ k"
  proof -
    have "\<bar>real_of_int m / 2 ^ k - real_of_int v / 10\<bar> =
        \<bar>real_of_int m - real_of_int (v * 2 ^ k) / 10\<bar> / 2 ^ k"
      by (simp add: field_simps abs_divide flip: abs_mult)
    also have "\<dots> \<le> (1 / 2) / 2 ^ k"
      using err by (intro divide_right_mono) simp_all
    finally show ?thesis .
  qed
  show ?thesis
  proof (cases "m = 2 ^ 53")
    case True
    let ?cm = "\<lparr>negative = False, significand = 2 ^ 52, exponent = 1 - int k\<rparr>"
    obtain k' where k': "k = Suc k'" using k(1) by (cases k) simp_all
    have val: "float_value ?cm = real_of_int m / 2 ^ k"
      using True by (simp add: float_value_def Let_def k')
    have "(1 / 2) / (2::real) ^ k \<le> 1 / 2 ^ (nat (- exponent ?cm) + 1)"
      by (simp add: k' field_simps)
    with scale have f2: "\<bar>float_value ?cm - real_of_int v / 10\<bar>
        \<le> 1 / 2 ^ (nat (- exponent ?cm) + 1)"
      unfolding val by (rule order_trans)
    have f3: "(float_value ?cm = real_of_int v / 10) = (5 dvd v)"
      unfolding val by (rule exact)
    have "truediv v 10 = Inr ?cm" using True by (simp add: td)
    moreover have "\<not> negative ?cm" "2 ^ 52 \<le> significand ?cm" "significand ?cm < 2 ^ 53"
      "exponent ?cm \<le> 0"
      using k(1) by simp_all
    ultimately show ?thesis using f2 f3 by blast
  next
    case False
    let ?cm = "\<lparr>negative = False, significand = m, exponent = - int k\<rparr>"
    have val: "float_value ?cm = real_of_int m / 2 ^ k"
      using k(1) by (simp add: float_value_def Let_def)
    have "(1 / 2) / (2::real) ^ k \<le> 1 / 2 ^ (nat (- exponent ?cm) + 1)"
      by simp
    with scale have f2: "\<bar>float_value ?cm - real_of_int v / 10\<bar>
        \<le> 1 / 2 ^ (nat (- exponent ?cm) + 1)"
      unfolding val by (rule order_trans)
    have f3: "(float_value ?cm = real_of_int v / 10) = (5 dvd v)"
      unfolding val by (rule exact)
    have "truediv v 10 = Inr ?cm" using False by (simp add: td)
    moreover have "\<not> negative ?cm" "2 ^ 52 \<le> significand ?cm" "significand ?cm < 2 ^ 53"
      "exponent ?cm \<le> 0"
      using False mb fl by simp_all
    ultimately show ?thesis using f2 f3 by blast
  qed
qed

lemma unpack_H_range: "0 \<le> uint (hi::byte) * 256 + uint (lo::byte) \<and> uint hi * 256 + uint lo < 65536"
proof -
  have "uint hi < 256" "uint lo < 256"
    using uint_bounded [of hi] uint_bounded [of lo] by simp_all
  moreover have "0 \<le> uint hi" "0 \<le> uint lo" by simp_all
  ultimately show ?thesis by linarith
qed

lemma truediv_zero: "truediv 0 10 = Inr \<lparr>negative = False, significand = 0, exponent = 0\<rparr>"
  by (simp add: truediv_def)

text \<open>
  Claim C5, as amended. When the read of register 0x0096 delivers the two bytes
  \<open>hi\<close>, \<open>lo\<close>, that is the big-endian unsigned value \<open>v = 256 * hi + lo\<close>,
  \<open>distance\<close> returns the binary64 float nearest to \<open>v / 10\<close>: not negative, with
  a significand below \<open>2 ^ 53\<close> (and of 53 bits when \<open>v > 0\<close>), and within half a
  unit of its last place of \<open>v / 10\<close>. It is \<open>v / 10\<close> exactly when \<open>v\<close> is a
  multiple of 5, and only then: it is 10 for the bytes 0x00 0x64 and 100 for the bytes
  0x03 0xE8.
\<close>

theorem distance_value:
  assumes "read_registerN self VL53L1X_RESULT__FINAL_CROSSTALK_CORRECTED_RANGE_MM_SD0 2 w
             = (Inr [hi, lo], w')"
  shows "\<exists>cm. distance self w = (Inr cm, w') \<and>
           \<not> negative cm \<and> significand cm < 2 ^ 53 \<and>
           (0 < uint hi * 256 + uint lo \<longrightarrow> 2 ^ 52 \<le> significand cm) \<and>
           exponent cm \<le> 0 \<and>
           \<bar>float_value cm - real_of_int (uint hi * 256 + uint lo) / 10\<bar>
             \<le> 1 / 2 ^ (nat (- exponent cm) + 1) \<and>
           (float_value cm = real_of_int (uint hi * 256 + uint lo) / 10)
             = (5 dvd uint hi * 256 + uint lo) \<and>
           (hi = 0x00 \<and> lo = 0x64 \<longrightarrow> float_value cm = 10) \<and>
           (hi = 0x03 \<and> lo = 0xE8 \<longrightarrow> float_value cm = 100)"
proof -
  define v where "v = uint hi * 256 + uint lo"
  have range: "0 \<le> v" "v < 65536"
    using unpack_H_range [of hi lo] by (simp_all add: v_def)
  have dist: "distance self w =
      (case truediv v 10 of Inl e \<Rightarrow> (Inl e, w') | Inr cm \<Rightarrow> (Inr cm, w'))"
    using assms by (simp add: distance_def unpack_H_def v_def)
  have core: "\<exists>cm. truediv v 10 = Inr cm \<and> \<not> negative cm \<and> significand cm < 2 ^ 53 \<and>
           (0 < v \<longrightarrow> 2 ^ 52 \<le> significand cm) \<and> exponent cm \<le> 0 \<and>
           \<bar>float_value cm - real_of_int v / 10\<bar> \<le> 1 / 2 ^ (nat (- exponent cm) + 1) \<and>
           (float_value cm = real_of_int v / 10) = (5 dvd v)"
  proof (cases "v = 0")
    case True
    then show ?thesis
      by (simp add: truediv_zero float_value_def)
  next
    case False
    with range have "0 < v" by simp
    from truediv_u16 [OF this range(2)] this show ?thesis by blast
  qed
  then obtain cm where cm: "truediv v 10 = Inr cm" "\<not> negative cm" "significand cm < 2 ^ 53"
    "0 < v \<longrightarrow> 2 ^ 52 \<le> significand cm" "exponent cm \<le> 0"
    "\<bar>float_value cm - real_of_int v / 10\<bar> \<le> 1 / 2 ^ (nat (- exponent cm) + 1)"
    "(float_value cm = real_of_int v / 10) = (5 dvd v)"
    by blast
  have ex1: "hi = 0x00 \<and> lo = 0x64 \<longrightarrow> float_value cm = 10"
  proof
    assume "hi = 0x00 \<and> lo = 0x64"
    then have "v = 100" by (simp add: v_def)
    with cm(7) show "float_value cm = 10" by simp
  qed
  have ex2: "hi = 0x03 \<and> lo = 0xE8 \<longrightarrow> float_value cm = 100"
  proof
    assume "hi = 0x03 \<and> lo = 0xE8"
    then have "v = 1000" by (simp add: v_def)
    with cm(7) show "float_value cm = 100" by simp
  qed
  have "distance self w = (Inr cm, w')"
    by (simp add: dist cm(1))
  with cm(2-7) ex1 ex2 show ?thesis
    unfolding v_def by blast
qed

lemmas float_simps =
  truediv_def exponent_shift_def scaled_def round_half_even_def compute_bitlen float_value_def

theorem distance_value_witness:
  "read_registerN \<lparr>i2c_device = canned\<rparr> VL53L1X_RESULT__FINAL_CROSSTALK_CORRECTED_RANGE_MM_SD0 2
       \<lparr>dev = [[0x03, 0xE8]], trace = []\<rparr> =
     (Inr [0x03, 0xE8], \<lparr>dev = [], trace = [Enter, Write [0x00, 0x96], ReadInto 2, Exit]\<rparr>) \<and>
   distance \<lparr>i2c_device = canned\<rparr> \<lparr>dev = [[0x03, 0xE8]], trace = []\<rparr> =
     (Inr \<lparr>negative = False, significand = 7036874417766400, exponent = - 46\<rparr>,
      \<lparr>dev = [], trace = [Enter, Write [0x00, 0x96], ReadInto 2, Exit]\<rparr>) \<and>
   float_value \<lparr>negative = False, significand = 7036874417766400, exponent = - 46\<rparr> = 100"
proof -
  have rd: "read_registerN \<lparr>i2c_device = canned\<rparr>
       VL53L1X_RESULT__FINAL_CROSSTALK_CORRECTED_RANGE_MM_SD0 2
       \<lparr>dev = [[0x03, 0xE8]], trace = []\<rparr> =
     (Inr [0x03, 0xE8], \<lparr>dev = [], trace = [Enter, Write [0x00, 0x96], ReadInto 2, Exit]\<rparr>)"
    by (simp add: run_simps)
  have td: "truediv 1000 10 =
      Inr \<lparr>negative = False, significand = 7036874417766400, exponent = - 46\<rparr>"
    by (simp add: float_simps Let_def)
  have ds: "distance \<lparr>i2c_device = canned\<rparr> \<lparr>dev = [[0x03, 0xE8]], trace = []\<rparr> =
     (Inr \<lparr>negative = False, significand = 7036874417766400, exponent = - 46\<rparr>,
      \<lparr>dev = [], trace = [Enter, Write [0x00, 0x96], ReadInto 2, Exit]\<rparr>)"
    by (simp add: distance_def rd unpack_H_def td)
  show ?thesis
    using distance_value [OF rd] rd ds by simp
qed

text \<open>
  Claim C5 as stated, with \<open>distance\<close> exactly \<open>v / 10\<close>, fails for the raw bytes
  0x00 0x01: the float returned is 7205759403792794 / 2 ^ 56, which is not 1 / 10.
\<close>

theorem distance_inexact_counterexample:
  "fst (distance \<lparr>i2c_device = canned\<rparr> \<lparr>dev = [[0x00, 0x01]], trace = []\<rparr>) =
     Inr \<lparr>negative = False, significand = 7205759403792794, exponent = - 56\<rparr> \<and>
   float_value \<lparr>negative = False, significand = 7205759403792794, exponent = - 56\<rparr> \<noteq> 1 / 10"
proof -
  have td: "truediv 1 10 =
      Inr \<lparr>negative = False, significand = 7205759403792794, exponent = - 56\<rparr>"
    by (simp add: float_simps Let_def)
  have "fst (distance \<lparr>i2c_device = canned\<rparr> \<lparr>dev = [[0x00, 0x01]], trace = []\<rparr>) =
     Inr \<lparr>negative = False, significand = 7205759403792794, exponent = - 56\<rparr>"
    by (simp add: distance_def run_simps td)
  moreover have "float_value \<lparr>negative = False, significand = 7205759403792794,
      exponent = - 56\<rparr> \<noteq> 1 / 10"
    by (simp add: float_value_def)
  ultimately show ?thesis by simp
qed

subsection \<open>The identity check\<close>

lemma model_info_success:
  assumes "model_info self w = (Inr ident, w1)"
  shows "trace w1 = trace w @ read_txn VL53L1X_IDENTIFICATION__MODEL_ID 3"
proof -
  from assms obtain info where
    "read_registerN self VL53L1X_IDENTIFICATION__MODEL_ID 3 w = (Inr info, w1)"
    by (auto simp add: model_info_def split: prod.splits sum.splits)
  from read_registerN_success [OF this] show ?thesis
    by (simp add: VL53L1X_IDENTIFICATION__MODEL_ID_def)
qed

text \<open>
  Claim C2. When the identity read at construction delivers a triple that differs from
  (0xEA, 0xCC, 0x10) in at least one place, construction raises the identity error of
  the source, and all it has put on the bus is the identity read: there is no register
  write, and no init block.
\<close>

theorem identity_mismatch:
  assumes "model_info \<lparr>i2c_device = i2c\<rparr> w = (Inr (model_id, module_type, mask_rev), w1)"
    and "model_id \<noteq> 0xEA \<or> module_type \<noteq> 0xCC \<or> mask_rev \<noteq> 0x10"
  shows "fst (init i2c fuel w) = Some (Inl (RuntimeError ''Wrong sensor ID or type!'')) \<and>
         emitted w (snd (init i2c fuel w)) = [Enter, Write [0x01, 0x0F], ReadInto 3, Exit] \<and>
         Write ([0x00, 0x2D] @ init_seq) \<notin> set (emitted w (snd (init i2c fuel w)))"
proof -
  have r: "init i2c fuel w = (Some (Inl (RuntimeError ''Wrong sensor ID or type!'')), w1)"
    using assms by (auto simp add: init_def)
  have "trace w1 = trace w @ [Enter, Write [0x01, 0x0F], ReadInto 3, Exit]"
    using model_info_success [OF assms(1)]
    by (simp add: read_txn_def addr_bytes_def VL53L1X_IDENTIFICATION__MODEL_ID_def)
  then have "emitted w w1 = [Enter, Write [0x01, 0x0F], ReadInto 3, Exit]"
    by (simp add: emitted_def)
  with r show ?thesis by simp
qed

theorem identity_mismatch_witness:
  "model_info \<lparr>i2c_device = canned\<rparr> \<lparr>dev = [[0xEA, 0xCC, 0x11]], trace = []\<rparr> =
     (Inr (0xEA, 0xCC, 0x11), \<lparr>dev = [], trace = [Enter, Write [0x01, 0x0F], ReadInto 3, Exit]\<rparr>) \<and>
   fst (init canned 5 \<lparr>dev = [[0xEA, 0xCC, 0x11]], trace = []\<rparr>) =
     Some (Inl (RuntimeError ''Wrong sensor ID or type!'')) \<and>
   emitted \<lparr>dev = [[0xEA, 0xCC, 0x11]], trace = []\<rparr>
     (snd (init canned 5 \<lparr>dev = [[0xEA, 0xCC, 0x11]], trace = []\<rparr>)) =
     [Enter, Write [0x01, 0x0F], ReadInto 3, Exit]"
proof -
  have mi: "model_info \<lparr>i2c_device = canned\<rparr> \<lparr>dev = [[0xEA, 0xCC, 0x11]], trace = []\<rparr> =
     (Inr (0xEA, 0xCC, 0x11), \<lparr>dev = [], trace = [Enter, Write [0x01, 0x0F], ReadInto 3, Exit]\<rparr>)"
    by (simp add: model_info_def run_simps)
  have ne: "(0xEA::int) \<noteq> 0xEA \<or> (0xCC::int) \<noteq> 0xCC \<or> (0x11::int) \<noteq> 0x10"
    by simp
  show ?thesis
    using identity_mismatch [OF mi ne, of 5] mi by simp
qed

subsection \<open>The round trip on the loopback transport\<close>

lemma store_outside: "q < p \<Longrightarrow> store m p bs q = m q"
  by (induction bs arbitrary: m p) simp_all

lemma store_nth: "i < length bs \<Longrightarrow> store m p bs (p + i) = bs ! i"
proof (induction bs arbitrary: m p i)
  case Nil
  then show ?case by simp
next
  case (Cons b bs)
  show ?case
  proof (cases i)
    case 0
    then show ?thesis by (simp add: store_outside)
  next
    case (Suc j)
    with Cons.prems have "j < length bs" by simp
    then have "store (m(p := b)) (Suc p) bs (Suc p + j) = bs ! j"
      by (rule Cons.IH)
    with Suc show ?thesis by simp
  qed
qed

lemma store_read: "map (\<lambda>i. store m p bs (p + i)) [0 ..< length bs] = bs"
  by (rule nth_equalityI) (simp_all add: store_nth)

text \<open>
  Claim C9. On the loopback transport, for every 16-bit register address and every
  payload, the write primitive succeeds, and the read primitive, asked for as many
  bytes from the same address, returns the payload as it was written.
\<close>

theorem loopback_round_trip:
  assumes "0 \<le> address" and "address < 65536"
  shows "fst (write_registerN \<lparr>i2c_device = loopback\<rparr> address data None w) = Inr () \<and>
         fst (read_registerN \<lparr>i2c_device = loopback\<rparr> address (int (length data))
                (snd (write_registerN \<lparr>i2c_device = loopback\<rparr> address data None w))) =
           Inr data"
proof -
  obtain hi lo where hl: "addr_bytes address = [hi, lo]"
    by (auto simp add: addr_bytes_def)
  define p where "p = unat hi * 256 + unat lo"
  have wr: "write_registerN \<lparr>i2c_device = loopback\<rparr> address data None w =
      (Inr (), \<lparr>dev = \<lparr>mem = store (mem (dev w)) p data, idx = p + length data\<rparr>,
                trace = trace w @ write_txn address data\<rparr>)"
    using assms hl
    by (simp add: write_registerN_eq slice_to_def loopback_def Let_def p_def)
  have "map (\<lambda>i. store (mem (dev w)) p data (p + i)) [0 ..< length data] = data"
    by (rule store_read)
  then show ?thesis
    unfolding wr using assms hl
    by (simp add: read_registerN_eq loopback_def Let_def p_def fill_buffer_def)
qed

theorem loopback_round_trip_witness:
  "(0::int) \<le> 0x0087 \<and> (0x0087::int) < 65536 \<and>
   fst (read_registerN \<lparr>i2c_device = loopback\<rparr> 0x0087 (int (length [0x40, 0x41 :: byte]))
          (snd (write_registerN \<lparr>i2c_device = loopback\<rparr> 0x0087 [0x40, 0x41] None
                  \<lparr>dev = \<lparr>mem = (\<lambda>a. 0), idx = 0\<rparr>, trace = []\<rparr>))) = Inr [0x40, 0x41]"
  using loopback_round_trip [of "0x0087" "[0x40, 0x41]"
      "\<lparr>dev = \<lparr>mem = (\<lambda>a. 0), idx = 0\<rparr>, trace = []\<rparr>"]
  by simp

subsection \<open>Construction when nothing raises and the sensor gets ready\<close>

lemma data_ready_success_trace:
  assumes "data_ready self w = (Inr b, w')"
  shows "trace w' = trace w @ poll_txns"
proof -
  from data_ready_success [OF assms] obtain buf w1 buf' where
    st: "read_registerN self GPIO__TIO_HV_STATUS 1 w = (Inr buf, w1)" and
    mx: "read_registerN self GPIO_HV_MUX__CTRL 1 w1 = (Inr buf', w')"
    by blast
  have "trace w1 = trace w @ read_txn GPIO__TIO_HV_STATUS 1"
    using read_registerN_success [OF st] by (simp add: GPIO__TIO_HV_STATUS_def)
  moreover have "trace w' = trace w1 @ read_txn GPIO_HV_MUX__CTRL 1"
    using read_registerN_success [OF mx] by (simp add: GPIO_HV_MUX__CTRL_def)
  ultimately show ?thesis by (simp add: poll_txns_def)
qed

lemma poll_ready_polled:
  assumes "polled self n w = Some w'" and "n < fuel"
  shows "poll_ready self fuel w = (Some (Inr ()), w') \<and>
         trace w' = trace w @ concat (replicate n (poll_txns @ [Sleep])) @ poll_txns"
  using assms
proof (induction n arbitrary: w fuel)
  case 0
  obtain r w1 where dr: "data_ready self w = (r, w1)" by (cases "data_ready self w")
  with "0.prems"(1) have r: "r = Inr True" and w1: "w1 = w'"
    by (auto split: sum.splits bool.splits)
  from "0.prems"(2) obtain f where f: "fuel = Suc f" by (cases fuel) simp_all
  have "trace w' = trace w @ poll_txns"
    using data_ready_success_trace dr r w1 by blast
  then show ?case
    using dr r w1 by (simp add: f)
next
  case (Suc n)
  obtain r w1 where dr: "data_ready self w = (r, w1)" by (cases "data_ready self w")
  with Suc.prems(1) have r: "r = Inr False" and rest: "polled self n (log Sleep w1) = Some w'"
    by (auto split: sum.splits bool.splits)
  from Suc.prems(2) obtain f where f: "fuel = Suc f" and nf: "n < f" by (cases fuel) simp_all
  have t1: "trace w1 = trace w @ poll_txns"
    using data_ready_success_trace dr r by blast
  from Suc.IH [OF rest nf] have
    pr: "poll_ready self f (log Sleep w1) = (Some (Inr ()), w')" and
    t2: "trace w' = trace (log Sleep w1) @ concat (replicate n (poll_txns @ [Sleep])) @ poll_txns"
    by simp_all
  have "trace w' = trace w @ concat (replicate (Suc n) (poll_txns @ [Sleep])) @ poll_txns"
    using t1 t2 by (simp add: log_def)
  then show ?case
    using dr r pr by (simp add: f)
qed

lemma write_registerN_returns_trace:
  assumes "write_registerN self a data None w = (r, w')" and "0 \<le> a" and "a < 65536"
  shows "trace w' = trace w @ write_txn a data"
  using assms by (auto simp add: write_registerN_eq Let_def slice_to_all)

text \<open>
  Claim C6, as amended. When the identity read delivers (0xEA, 0xCC, 0x10), none of
  the register writes of the construction raises, and \<open>data_ready\<close> is false at the
  first \<open>n\<close> polls and true at the next without raising, then construction succeeds
  (the loop being allowed its \<open>n + 1\<close> polls) and has issued, in this order: the
  identity read, one write of the init block, one start-ranging write, the \<open>n + 1\<close>
  polls (each a read of the status register and then of the polarity register, with a
  sleep after each of the first \<open>n\<close>), one clear-interrupt write, one stop-ranging
  write, a write of 0x09 to register 0x0008 and a write of 0x00 to register 0x000B.
\<close>

theorem construction_sequence:
  assumes "model_info \<lparr>i2c_device = i2c\<rparr> w = (Inr (0xEA, 0xCC, 0x10), w1)"
    and "write_registerN \<lparr>i2c_device = i2c\<rparr> 0x002D init_seq None w1 = (Inr (), w2)"
    and "start_ranging \<lparr>i2c_device = i2c\<rparr> w2 = (Inr (), w3)"
    and "polled \<lparr>i2c_device = i2c\<rparr> n w3 = Some w4"
    and "clear_interrupt \<lparr>i2c_device = i2c\<rparr> w4 = (Inr (), w5)"
    and "stop_ranging \<lparr>i2c_device = i2c\<rparr> w5 = (Inr (), w6)"
    and "write_registerN \<lparr>i2c_device = i2c\<rparr> 0x0008 [0x09] None w6 = (Inr (), w7)"
    and "write_registerN \<lparr>i2c_device = i2c\<rparr> 0x000B [0x00] None w7 = (Inr (), w8)"
    and "n < fuel"
  shows "init i2c fuel w = (Some (Inr \<lparr>i2c_device = i2c\<rparr>), w8) \<and>
         emitted w w8 =
            read_txn 0x010F 3 @ write_txn 0x002D init_seq @ write_txn 0x0087 [0x40] @
            concat (replicate n (read_txn 0x0031 1 @ read_txn 0x0030 1 @ [Sleep])) @
            read_txn 0x0031 1 @ read_txn 0x0030 1 @
            write_txn 0x0086 [0x01] @ write_txn 0x0087 [0x00] @
            write_txn 0x0008 [0x09] @ write_txn 0x000B [0x00]"
proof -
  let ?self = "\<lparr>i2c_device = i2c\<rparr>"
  have pr: "poll_ready ?self fuel w3 = (Some (Inr ()), w4)"
    and t4: "trace w4 = trace w3 @ concat (replicate n (poll_txns @ [Sleep])) @ poll_txns"
    using poll_ready_polled [OF assms(4) assms(9)] by simp_all
  have si: "sensor_init ?self fuel w1 = (Some (Inr ()), w8)"
    using assms(2,3,5,6,7,8) pr
    by (simp add: sensor_init_def and_then_def returned_def
          VL53L1X_VHV_CONFIG__TIMEOUT_MACROP_LOOP_BOUND_def)
  have res: "init i2c fuel w = (Some (Inr ?self), w8)"
    using assms(1) si by (simp add: init_def)
  have t1: "trace w1 = trace w @ read_txn 0x010F 3"
    using model_info_success [OF assms(1)] by (simp add: VL53L1X_IDENTIFICATION__MODEL_ID_def)
  have t2: "trace w2 = trace w1 @ write_txn 0x002D init_seq"
    using write_registerN_returns_trace [OF assms(2)] by simp
  have t3: "trace w3 = trace w2 @ write_txn 0x0087 [0x40]"
    using write_registerN_returns_trace [OF assms(3) [unfolded start_ranging_def]]
    by (simp add: SYSTEM__MODE_START_def)
  have t5: "trace w5 = trace w4 @ write_txn 0x0086 [0x01]"
    using write_registerN_returns_trace [OF assms(5) [unfolded clear_interrupt_def]]
    by (simp add: SYSTEM__INTERRUPT_CLEAR_def)
  have t6: "trace w6 = trace w5 @ write_txn 0x0087 [0x00]"
    using write_registerN_returns_trace [OF assms(6) [unfolded stop_ranging_def]]
    by (simp add: SYSTEM__MODE_START_def)
  have t7: "trace w7 = trace w6 @ write_txn 0x0008 [0x09]"
    using write_registerN_returns_trace [OF assms(7)] by simp
  have t8: "trace w8 = trace w7 @ write_txn 0x000B [0x00]"
    using write_registerN_returns_trace [OF assms(8)] by simp
  have pt: "poll_txns = read_txn 0x0031 1 @ read_txn 0x0030 1"
    by (simp add: poll_txns_def GPIO__TIO_HV_STATUS_def GPIO_HV_MUX__CTRL_def)
  have "emitted w w8 =
            read_txn 0x010F 3 @ write_txn 0x002D init_seq @ write_txn 0x0087 [0x40] @
            concat (replicate n (read_txn 0x0031 1 @ read_txn 0x0030 1 @ [Sleep])) @
            read_txn 0x0031 1 @ read_txn 0x0030 1 @
            write_txn 0x0086 [0x01] @ write_txn 0x0087 [0x00] @
            write_txn 0x0008 [0x09] @ write_txn 0x000B [0x00]"
    using t1 t2 t3 t4 t5 t6 t7 t8 unfolding pt by (simp add: emitted_def)
  with res show ?thesis by simp
qed



lemma canned_write_returns:
  assumes "0 \<le> a" and "a < 65536"
  shows "write_registerN \<lparr>i2c_device = canned\<rparr> a data None w =
           (Inr (), \<lparr>dev = dev w, trace = trace w @ write_txn a data\<rparr>)"
  using assms by (simp add: write_registerN_eq Let_def slice_to_all canned_def)

lemma canned_data_ready:
  "data_ready \<lparr>i2c_device = canned\<rparr> \<lparr>dev = [s] # [m] # rest, trace = tr\<rparr> =
     (Inr (uint s AND 0x01 = (if uint m AND 0x10 \<noteq> 0 then 0 else 1)),
      \<lparr>dev = rest, trace = tr @ poll_txns\<rparr>)"
proof -
  have st: "read_registerN \<lparr>i2c_device = canned\<rparr> GPIO__TIO_HV_STATUS 1
      \<lparr>dev = [s] # [m] # rest, trace = tr\<rparr> =
      (Inr [s], \<lparr>dev = [m] # rest, trace = tr @ read_txn GPIO__TIO_HV_STATUS 1\<rparr>)"
    by (simp add: read_registerN_eq GPIO__TIO_HV_STATUS_def canned_def fill_buffer_def)
  have mx: "read_registerN \<lparr>i2c_device = canned\<rparr> GPIO_HV_MUX__CTRL 1
      \<lparr>dev = [m] # rest, trace = tr @ read_txn GPIO__TIO_HV_STATUS 1\<rparr> =
      (Inr [m], \<lparr>dev = rest, trace = tr @ poll_txns\<rparr>)"
    by (simp add: read_registerN_eq GPIO_HV_MUX__CTRL_def canned_def fill_buffer_def
          poll_txns_def)
  show ?thesis
    using st mx by (rule data_ready_value)
qed

theorem construction_sequence_witness:
  "model_info \<lparr>i2c_device = canned\<rparr>
          \<lparr>dev = [[0xEA, 0xCC, 0x10], [0x00], [0x01], [0x01], [0x01]], trace = []\<rparr> =
     (Inr (0xEA, 0xCC, 0x10),
      \<lparr>dev = [[0x00], [0x01], [0x01], [0x01]], trace = read_txn 0x010F 3\<rparr>) \<and>
   polled \<lparr>i2c_device = canned\<rparr> 1
          \<lparr>dev = [[0x00], [0x01], [0x01], [0x01]],
             trace = read_txn 0x010F 3 @ write_txn 0x002D init_seq @ write_txn 0x0087 [0x40]\<rparr> =
     Some \<lparr>dev = [],
            trace = read_txn 0x010F 3 @ write_txn 0x002D init_seq @ write_txn 0x0087 [0x40] @
                    poll_txns @ [Sleep] @ poll_txns\<rparr> \<and>
   fst (init canned 2 \<lparr>dev = [[0xEA, 0xCC, 0x10], [0x00], [0x01], [0x01], [0x01]], trace = []\<rparr>)
     = Some (Inr \<lparr>i2c_device = canned\<rparr>) \<and>
   emitted \<lparr>dev = [[0xEA, 0xCC, 0x10], [0x00], [0x01], [0x01], [0x01]], trace = []\<rparr>
      (snd (init canned 2
              \<lparr>dev = [[0xEA, 0xCC, 0x10], [0x00], [0x01], [0x01], [0x01]], trace = []\<rparr>)) =
            read_txn 0x010F 3 @ write_txn 0x002D init_seq @ write_txn 0x0087 [0x40] @
            read_txn 0x0031 1 @ read_txn 0x0030 1 @ [Sleep] @
            read_txn 0x0031 1 @ read_txn 0x0030 1 @
            write_txn 0x0086 [0x01] @ write_txn 0x0087 [0x00] @
            write_txn 0x0008 [0x09] @ write_txn 0x000B [0x00]"
proof -
  let ?self = "\<lparr>i2c_device = canned\<rparr>"
  let ?w = "\<lparr>dev = [[0xEA, 0xCC, 0x10], [0x00], [0x01], [0x01], [0x01]], trace = []\<rparr>"
  let ?t1 = "read_txn 0x010F 3"
  let ?t2 = "?t1 @ write_txn 0x002D init_seq"
  let ?t3 = "?t2 @ write_txn 0x0087 [0x40]"
  let ?t4 = "?t3 @ poll_txns @ [Sleep] @ poll_txns"
  let ?t5 = "?t4 @ write_txn 0x0086 [0x01]"
  let ?t6 = "?t5 @ write_txn 0x0087 [0x00]"
  let ?t7 = "?t6 @ write_txn 0x0008 [0x09]"
  let ?t8 = "?t7 @ write_txn 0x000B [0x00]"
  have h1: "model_info ?self ?w =
      (Inr (0xEA, 0xCC, 0x10), \<lparr>dev = [[0x00], [0x01], [0x01], [0x01]], trace = ?t1\<rparr>)"
    by (simp add: model_info_def read_registerN_eq VL53L1X_IDENTIFICATION__MODEL_ID_def
          canned_def fill_buffer_def getitem_def)
  have h2: "write_registerN ?self 0x002D init_seq None
        \<lparr>dev = [[0x00], [0x01], [0x01], [0x01]], trace = ?t1\<rparr> =
      (Inr (), \<lparr>dev = [[0x00], [0x01], [0x01], [0x01]], trace = ?t2\<rparr>)"
    by (simp add: canned_write_returns)
  have h3: "start_ranging ?self \<lparr>dev = [[0x00], [0x01], [0x01], [0x01]], trace = ?t2\<rparr> =
      (Inr (), \<lparr>dev = [[0x00], [0x01], [0x01], [0x01]], trace = ?t3\<rparr>)"
    by (simp add: start_ranging_def SYSTEM__MODE_START_def canned_write_returns)
  have h4: "polled ?self 1 \<lparr>dev = [[0x00], [0x01], [0x01], [0x01]], trace = ?t3\<rparr> =
      Some \<lparr>dev = [], trace = ?t4\<rparr>"
    by (simp add: canned_data_ready log_def)
  have h5: "clear_interrupt ?self \<lparr>dev = [], trace = ?t4\<rparr> =
      (Inr (), \<lparr>dev = [], trace = ?t5\<rparr>)"
    by (simp add: clear_interrupt_def SYSTEM__INTERRUPT_CLEAR_def canned_write_returns)
  have h6: "stop_ranging ?self \<lparr>dev = [], trace = ?t5\<rparr> = (Inr (), \<lparr>dev = [], trace = ?t6\<rparr>)"
    by (simp add: stop_ranging_def SYSTEM__MODE_START_def canned_write_returns)
  have h7: "write_registerN ?self 0x0008 [0x09] None \<lparr>dev = [], trace = ?t6\<rparr> =
      (Inr (), \<lparr>dev = [], trace = ?t7\<rparr>)"
    by (simp add: canned_write_returns)
  have h8: "write_registerN ?self 0x000B [0x00] None \<lparr>dev = [], trace = ?t7\<rparr> =
      (Inr (), \<lparr>dev = [], trace = ?t8\<rparr>)"
    by (simp add: canned_write_returns)
  have fuel: "(1::nat) < 2" by simp
  show ?thesis
    using construction_sequence [OF h1 h2 h3 h4 h5 h6 h7 h8 fuel] h1 h4
    by simp
qed

text \<open>
  Claim C6 as stated fails when the bus fails after the identity read: the identity
  triple is (0xEA, 0xCC, 0x10), the write of the init block raises, construction raises.
\<close>

theorem construction_bus_error_counterexample:
  "fst (model_info \<lparr>i2c_device = faulty\<rparr> \<lparr>dev = 2, trace = []\<rparr>) = Inr (0xEA, 0xCC, 0x10) \<and>
   fst (init faulty 5 \<lparr>dev = 2, trace = []\<rparr>) = Some (Inl OSError)"
proof -
  have mi: "model_info \<lparr>i2c_device = faulty\<rparr> \<lparr>dev = 2, trace = []\<rparr> =
     (Inr (0xEA, 0xCC, 0x10), \<lparr>dev = 0, trace = [Enter, Write [0x01, 0x0F], ReadInto 3, Exit]\<rparr>)"
    by (simp add: model_info_def run_simps)
  have wr: "write_registerN \<lparr>i2c_device = faulty\<rparr> 0x002D init_seq None
       \<lparr>dev = 0, trace = [Enter, Write [0x01, 0x0F], ReadInto 3, Exit]\<rparr> =
     (Inl OSError,
      \<lparr>dev = 0, trace = [Enter, Write [0x01, 0x0F], ReadInto 3, Exit] @
                           write_txn 0x002D init_seq\<rparr>)"
    by (simp add: write_registerN_eq faulty_def Let_def slice_to_all)
  have "fst (sensor_init \<lparr>i2c_device = faulty\<rparr> 5
       \<lparr>dev = 0, trace = [Enter, Write [0x01, 0x0F], ReadInto 3, Exit]\<rparr>) = Some (Inl OSError)"
    by (simp add: sensor_init_def and_then_def returned_def wr)
  then obtain w2 where "sensor_init \<lparr>i2c_device = faulty\<rparr> 5
       \<lparr>dev = 0, trace = [Enter, Write [0x01, 0x0F], ReadInto 3, Exit]\<rparr> =
       (Some (Inl OSError), w2)"
    by (cases "sensor_init \<lparr>i2c_device = faulty\<rparr> 5
       \<lparr>dev = 0, trace = [Enter, Write [0x01, 0x0F], ReadInto 3, Exit]\<rparr>") simp
  then show ?thesis
    by (simp add: init_def mi)
qed

subsection \<open>The init block\<close>

lemma short_writes_only_write:
  assumes "0 \<le> a" and "a < 65536" and "length data \<le> 1"
  shows "short_writes_only (\<lambda>w. returned (write_registerN self a data None w))"
  using assms
  by (auto simp add: short_writes_only_def returned_def write_registerN_eq Let_def
        slice_to_all write_txn_def addr_bytes_def split: prod.splits)

lemma poll_ready_extends:
  "\<exists>es. trace (snd (poll_ready self fuel w)) = trace w @ es \<and>
        (\<forall>bs. Write bs \<in> set es \<longrightarrow> length bs \<le> 3)"
proof (induction fuel arbitrary: w)
  case 0
  show ?case by simp
next
  case (Suc fuel)
  obtain r w1 where dr: "data_ready self w = (r, w1)"
    by (cases "data_ready self w")
  obtain es where es: "trace w1 = trace w @ es" "\<forall>bs. Write bs \<in> set es \<longrightarrow> length bs \<le> 3"
    using data_ready_extends [of self w] dr by auto
  show ?case
  proof (cases "r = Inr False")
    case True
    obtain es' where es': "trace (snd (poll_ready self fuel (log Sleep w1))) =
        trace (log Sleep w1) @ es'" "\<forall>bs. Write bs \<in> set es' \<longrightarrow> length bs \<le> 3"
      using Suc.IH [of "log Sleep w1"] by blast
    have "trace (snd (poll_ready self (Suc fuel) w)) = trace w @ (es @ [Sleep] @ es')"
      using True dr es(1) es'(1) by (simp add: log_def)
    moreover have "\<forall>bs. Write bs \<in> set (es @ [Sleep] @ es') \<longrightarrow> length bs \<le> 3"
      using es(2) es'(2) by auto
    ultimately show ?thesis by blast
  next
    case False
    then have "snd (poll_ready self (Suc fuel) w) = w1"
      using dr by (cases r) (auto split: bool.splits)
    with es show ?thesis by auto
  qed
qed

lemma short_writes_only_poll: "short_writes_only (poll_ready self fuel)"
  unfolding short_writes_only_def using poll_ready_extends by blast

lemma short_writes_only_and_then:
  assumes "short_writes_only f" and "short_writes_only k"
  shows "short_writes_only (\<lambda>w. and_then (f w) k)"
  unfolding short_writes_only_def
proof
  fix w
  obtain r w1 where f: "f w = (r, w1)" by (cases "f w")
  obtain es where es: "trace w1 = trace w @ es" "\<forall>bs. Write bs \<in> set es \<longrightarrow> length bs \<le> 3"
    using assms(1) f unfolding short_writes_only_def by (metis snd_conv)
  obtain es' where es': "trace (snd (k w1)) = trace w1 @ es'"
    "\<forall>bs. Write bs \<in> set es' \<longrightarrow> length bs \<le> 3"
    using assms(2) unfolding short_writes_only_def by blast
  show "\<exists>es. trace (snd (and_then (f w) k)) = trace w @ es \<and>
             (\<forall>bs. Write bs \<in> set es \<longrightarrow> length bs \<le> 3)"
  proof (cases "r = Some (Inr ())")
    case True
    then have "trace (snd (and_then (f w) k)) = trace w @ (es @ es')"
      using f es(1) es'(1) by (simp add: and_then_def)
    moreover have "\<forall>bs. Write bs \<in> set (es @ es') \<longrightarrow> length bs \<le> 3"
      using es(2) es'(2) by auto
    ultimately show ?thesis by blast
  next
    case False
    then have "snd (and_then (f w) k) = w1"
      using f by (auto simp add: and_then_def split: option.splits sum.splits)
    with es show ?thesis by auto
  qed
qed

lemma sensor_init_extends:
  "\<exists>es. trace (snd (sensor_init self fuel w)) = trace w @ write_txn 0x002D init_seq @ es \<and>
        (\<forall>bs. Write bs \<in> set es \<longrightarrow> length bs \<le> 3)"
proof -
  let ?rest = "\<lambda>w.
     and_then (returned (start_ranging self w)) (\<lambda>w.
     and_then (poll_ready self fuel w) (\<lambda>w.
     and_then (returned (clear_interrupt self w)) (\<lambda>w.
     and_then (returned (stop_ranging self w)) (\<lambda>w.
     and_then (returned (write_registerN self VL53L1X_VHV_CONFIG__TIMEOUT_MACROP_LOOP_BOUND
                           [0x09] None w)) (\<lambda>w.
     returned (write_registerN self 0x0B [0x00] None w))))))"
  have w7: "short_writes_only (\<lambda>w. returned (write_registerN self 0x0B [0x00] None w))"
    by (rule short_writes_only_write) simp_all
  have w6: "short_writes_only (\<lambda>w. returned
      (write_registerN self VL53L1X_VHV_CONFIG__TIMEOUT_MACROP_LOOP_BOUND [0x09] None w))"
    unfolding VL53L1X_VHV_CONFIG__TIMEOUT_MACROP_LOOP_BOUND_def
    by (rule short_writes_only_write) simp_all
  have w5: "short_writes_only (\<lambda>w. returned (stop_ranging self w))"
    unfolding stop_ranging_def SYSTEM__MODE_START_def
    by (rule short_writes_only_write) simp_all
  have w4: "short_writes_only (\<lambda>w. returned (clear_interrupt self w))"
    unfolding clear_interrupt_def SYSTEM__INTERRUPT_CLEAR_def
    by (rule short_writes_only_write) simp_all
  have w2: "short_writes_only (\<lambda>w. returned (start_ranging self w))"
    unfolding start_ranging_def SYSTEM__MODE_START_def
    by (rule short_writes_only_write) simp_all
  have rest: "short_writes_only ?rest"
    by (intro short_writes_only_and_then w2 w4 w5 w6 w7 short_writes_only_poll)
  obtain r w1 where s1: "write_registerN self 0x002D init_seq None w = (r, w1)"
    by (cases "write_registerN self 0x002D init_seq None w")
  have t1: "trace w1 = trace w @ write_txn 0x002D init_seq"
    using s1 by (auto simp add: write_registerN_eq Let_def slice_to_all)
  obtain es where es: "trace (snd (?rest w1)) = trace w1 @ es"
    "\<forall>bs. Write bs \<in> set es \<longrightarrow> length bs \<le> 3"
    using rest unfolding short_writes_only_def by blast
  have si: "sensor_init self fuel w = and_then (Some r, w1) ?rest"
    using s1 by (simp add: sensor_init_def returned_def)
  show ?thesis
  proof (cases "r = Inr ()")
    case True
    then have "trace (snd (sensor_init self fuel w)) =
        trace w @ write_txn 0x002D init_seq @ es"
      using si t1 es(1) by (simp add: and_then_def)
    with es(2) show ?thesis by blast
  next
    case False
    then have "snd (sensor_init self fuel w) = w1"
      unfolding si by (auto simp add: and_then_def split: sum.splits)
    with t1 show ?thesis by auto
  qed
qed

lemma length_init_seq: "length init_seq = 91"
  by (simp add: init_seq_def)

text \<open>
  Claim C1, as amended. Whatever the transport does, the initialization sequence
  begins with one register write that carries the address 0x002D and the whole block
  of constants, and issues that write once; the block has exactly 91 bytes, one for
  each register from 0x2D to 0x87 inclusive.
\<close>

theorem init_block_write:
  "take 3 (emitted w (snd (sensor_init self fuel w))) =
     [Enter, Write ([0x00, 0x2D] @ init_seq), Exit] \<and>
   count_list (emitted w (snd (sensor_init self fuel w))) (Write ([0x00, 0x2D] @ init_seq)) = 1 \<and>
   length init_seq = 91 \<and>
   0x2D + int (length init_seq) - 1 = 0x87"
proof -
  obtain es where es: "trace (snd (sensor_init self fuel w)) =
      trace w @ write_txn 0x002D init_seq @ es"
    and short: "\<forall>bs. Write bs \<in> set es \<longrightarrow> length bs \<le> 3"
    using sensor_init_extends by blast
  have em: "emitted w (snd (sensor_init self fuel w)) =
      [Enter, Write ([0x00, 0x2D] @ init_seq), Exit] @ es"
    using es by (simp add: emitted_def write_txn_def addr_bytes_def)
  have "Write ([0x00, 0x2D] @ init_seq) \<notin> set es"
    using short length_init_seq by auto
  then have "count_list es (Write ([0x00, 0x2D] @ init_seq)) = 0"
    by (simp add: count_list_0_iff)
  then show ?thesis
    unfolding em using length_init_seq by simp
qed

text \<open>
  Claim C1 as stated, with a block of 90 bytes, fails: the block the initialization
  sequence writes has another length.
\<close>

theorem init_block_length_counterexample:
  "take 3 (emitted \<lparr>dev = [], trace = []\<rparr>
             (snd (sensor_init \<lparr>i2c_device = canned\<rparr> 0 \<lparr>dev = [], trace = []\<rparr>))) =
     [Enter, Write ([0x00, 0x2D] @ init_seq), Exit] \<and>
   length init_seq \<noteq> 90"
proof -
  obtain es where "trace (snd (sensor_init \<lparr>i2c_device = canned\<rparr> 0
        \<lparr>dev = [], trace = []\<rparr>)) =
      trace \<lparr>dev = [], trace = []\<rparr> @ write_txn 0x002D init_seq @ es"
    using sensor_init_extends [of "\<lparr>i2c_device = canned\<rparr>" 0 "\<lparr>dev = [], trace = []\<rparr>"]
    by auto
  then have "take 3 (emitted \<lparr>dev = [], trace = []\<rparr>
             (snd (sensor_init \<lparr>i2c_device = canned\<rparr> 0 \<lparr>dev = [], trace = []\<rparr>))) =
     [Enter, Write ([0x00, 0x2D] @ init_seq), Exit]"
    by (simp add: emitted_def write_txn_def addr_bytes_def)
  then show ?thesis
    by (simp add: length_init_seq)
qed

end
